theory Spec2Isabelle
  imports Main "HOL-Library.Word" "HOL-Library.Log_Nat"
begin

section \<open>PDFlex: bounded upload ingestion and transient-file lifecycle\<close>

text \<open>
  A shallow embedding of \<^verbatim>\<open>main.py\<close>. The filesystem is a finite map from paths
  to file contents, exceptions are values of a sum type carrying the state at the
  point of the raise, and the random identifiers of \<^verbatim>\<open>uuid.uuid4().hex\<close> are drawn
  in order from a supply \<open>uuid_hex\<close> indexed by a counter. The PDF and image
  libraries are parameters of the model (record \<open>lib\<close>).
\<close>

subsection \<open>Data model\<close>

type_synonym bytes = "8 word list"
type_synonym path = string
type_synonym filesystem = "path \<rightharpoonup> bytes"

text \<open>The \<^verbatim>\<open>detail\<close> of each \<^verbatim>\<open>HTTPException\<close> raised by the program, with the
  value interpolated into its message.\<close>

datatype detail =
    Extension_no_permitida string
  | Excede_limite int
  | Rango_invalido int
  | Solo_grados

datatype exn =
    HTTPException int detail
  | LibraryError
  | FileNotFoundError
  | IndexError

text \<open>An \<^verbatim>\<open>UploadFile\<close>: the declared filename and the bytes its stream yields.\<close>

record upload =
  filename :: string
  file_stream :: bytes

definition UPLOAD_DIR :: path where
  "UPLOAD_DIR = ''temp_uploads''"

definition OUTPUT_DIR :: path where
  "OUTPUT_DIR = ''temp_outputs''"

definition MAX_MB_PER_FILE :: int where
  "MAX_MB_PER_FILE = 30"

definition ALLOWED_EXTENSIONS :: "string set" where
  "ALLOWED_EXTENSIONS = {''.pdf'', ''.jpg'', ''.jpeg'', ''.png''}"

subsection \<open>Library functions used by the helpers\<close>

text \<open>\<^verbatim>\<open>str.rfind\<close> for a one-character needle: the last index, or \<open>-1\<close>.\<close>

fun rfind_go :: "char \<Rightarrow> string \<Rightarrow> int \<Rightarrow> int \<Rightarrow> int" where
  "rfind_go c [] i r = r"
| "rfind_go c (x # xs) i r = rfind_go c xs (i + 1) (if x = c then i else r)"

definition rfind :: "string \<Rightarrow> char \<Rightarrow> int" where
  "rfind p c = rfind_go c p 0 (- 1)"

text \<open>
  \<^verbatim>\<open>os.path.splitext\<close> (POSIX flavour: separator \<^verbatim>\<open>/\<close>, no alternative separator).
  The loop skips the leading dots of the last path component; \<open>None\<close> stands for
  falling out of the loop.
\<close>

function skip_leading_dots :: "string \<Rightarrow> int \<Rightarrow> int \<Rightarrow> (string \<times> string) option" where
  "skip_leading_dots p dotIndex filenameIndex =
     (if filenameIndex < dotIndex then
        (if take 1 (drop (nat filenameIndex) p) \<noteq> ''.''
         then Some (take (nat dotIndex) p, drop (nat dotIndex) p)
         else skip_leading_dots p dotIndex (filenameIndex + 1))
      else None)"
  by pat_completeness auto
termination
  by (relation "measure (\<lambda>(p, d, f). nat (d - f))") auto

declare skip_leading_dots.simps [simp del]

definition splitext :: "string \<Rightarrow> string \<times> string" where
  "splitext p =
     (let sepIndex = rfind p CHR ''/'';
          dotIndex = rfind p CHR ''.''
      in if dotIndex > sepIndex then
           (case skip_leading_dots p dotIndex (sepIndex + 1) of
              Some r \<Rightarrow> r
            | None \<Rightarrow> (p, []))
         else (p, []))"

text \<open>\<^verbatim>\<open>str.lower\<close> on the code points below 256 (ASCII and Latin-1 capitals).\<close>

definition lower_char :: "char \<Rightarrow> char" where
  "lower_char c =
     (let n = (of_char c :: nat)
      in if (65 \<le> n \<and> n \<le> 90) \<or> (192 \<le> n \<and> n \<le> 222 \<and> n \<noteq> 215)
         then char_of (n + 32) else c)"

definition lower :: "string \<Rightarrow> string" where
  "lower s = map lower_char s"

text \<open>\<^verbatim>\<open>os.path.join\<close> of two components (POSIX).\<close>

definition path_join :: "path \<Rightarrow> path \<Rightarrow> path" where
  "path_join a b =
     (if b \<noteq> [] \<and> hd b = CHR ''/'' then b
      else if a = [] \<or> last a = CHR ''/'' then a @ b
      else a @ CHR ''/'' # b)"

subsection \<open>Helpers\<close>

definition validar_extension :: "string \<Rightarrow> string set \<Rightarrow> exn + string" where
  "validar_extension fname permitidas =
     (let ext = lower (snd (splitext fname))
      in if ext \<notin> permitidas
         then Inl (HTTPException 400 (Extension_no_permitida ext))
         else Inr ext)"

text \<open>\<^verbatim>\<open>borrar_archivos\<close>: every listed path that exists is removed.\<close>

fun borrar_archivos :: "path list \<Rightarrow> filesystem \<Rightarrow> filesystem" where
  "borrar_archivos [] fs = fs"
| "borrar_archivos (p # ps) fs =
     borrar_archivos ps (if p \<in> dom fs then fs(p := None) else fs)"

text \<open>
  The chunk loop of \<^verbatim>\<open>guardar_con_limite\<close>. \<open>stream\<close> is what is left of the upload,
  \<open>file_size\<close> the running total; a chunk is appended to the destination file.
  On overflow the destination is removed and the exception leaves the loop.
\<close>

function guardar_loop ::
  "nat \<Rightarrow> int \<Rightarrow> int \<Rightarrow> path \<Rightarrow> bytes \<Rightarrow> int \<Rightarrow> filesystem \<Rightarrow> (exn \<times> filesystem) + filesystem" where
  "guardar_loop n max_mb limit_bytes destino_path stream file_size fs =
     (let chunk = take n stream
      in if chunk = [] then Inr fs
         else
           let file_size' = file_size + int (length chunk)
           in if file_size' > limit_bytes then
                Inl (HTTPException 413 (Excede_limite max_mb),
                     if destino_path \<in> dom fs then fs(destino_path := None) else fs)
              else
                guardar_loop n max_mb limit_bytes destino_path (drop n stream) file_size'
                  (fs(destino_path \<mapsto> (case fs destino_path of None \<Rightarrow> [] | Some b \<Rightarrow> b) @ chunk)))"
  by pat_completeness auto
termination
  by (relation "measure (\<lambda>(n, m, l, d, s, k, fs). length s)") (auto simp: Let_def)

declare guardar_loop.simps [simp del]

definition guardar_con_limite ::
  "upload \<Rightarrow> path \<Rightarrow> int \<Rightarrow> filesystem \<Rightarrow> (exn \<times> filesystem) + filesystem" where
  "guardar_con_limite upload_file destino_path max_mb fs =
     (let limit_bytes = max_mb * 1024 * 1024
      in guardar_loop (1024 * 1024) max_mb limit_bytes destino_path (file_stream upload_file) 0
           (fs(destino_path \<mapsto> [])))"


subsection \<open>Python float arithmetic used by the savings header\<close>

text \<open>
  Binary64 values are represented by the rationals they denote. \<open>float_round\<close> rounds
  a rational to the nearest value with a 53-bit significand, ties to even, as the
  correctly rounded operations of IEEE 754 do. The exponent is not bounded: the model
  is exact for magnitudes in the normal range of binary64 (from \<open>2 powi -1022\<close> up to
  \<open>2 powi 1024\<close>), which contains every quotient of two file sizes.
\<close>

definition round_half_even :: "rat \<Rightarrow> int" where
  "round_half_even y =
     (let n = \<lfloor>y\<rfloor>; f = y - of_int n
      in if f < 1 / 2 then n
         else if f > 1 / 2 then n + 1
         else if even n then n else n + 1)"

text \<open>The binary exponent of a positive rational: \<open>2 powi e \<le> x < 2 powi (e + 1)\<close>.\<close>

definition binary_exponent :: "rat \<Rightarrow> int" where
  "binary_exponent x =
     (let d = bitlen (fst (quotient_of x)) - bitlen (snd (quotient_of x))
      in if 2 powi d \<le> x then d else d - 1)"

definition float_round :: "rat \<Rightarrow> rat" where
  "float_round x =
     (if x = 0 then 0
      else let u = 2 powi (binary_exponent \<bar>x\<bar> - 52)
           in of_int (round_half_even (x / u)) * u)"

text \<open>\<^verbatim>\<open>a / b\<close> on integers (true division), \<^verbatim>\<open>x * 100\<close> on floats, and
  \<^verbatim>\<open>int(x)\<close>, which truncates towards zero.\<close>

definition py_truediv :: "int \<Rightarrow> int \<Rightarrow> rat" where
  "py_truediv a b = float_round (of_int a / of_int b)"

definition py_float_mul :: "rat \<Rightarrow> rat \<Rightarrow> rat" where
  "py_float_mul x y = float_round (x * y)"

definition py_int :: "rat \<Rightarrow> int" where
  "py_int x = (if 0 \<le> x then \<lfloor>x\<rfloor> else \<lceil>x\<rceil>)"

text \<open>The expression \<^verbatim>\<open>int((ahorro / total_orig) * 100) if total_orig > 0 else 0\<close>
  of \<^verbatim>\<open>api_comprimir\<close>.\<close>

definition porcentaje :: "int \<Rightarrow> int \<Rightarrow> int" where
  "porcentaje total_orig total_comp =
     (let ahorro = total_orig - total_comp
      in if total_orig > 0 then py_int (py_float_mul (py_truediv ahorro total_orig) 100)
         else 0)"

subsection \<open>The environment of a request\<close>

text \<open>
  What the program takes from outside: the identifiers drawn by \<^verbatim>\<open>uuid.uuid4().hex\<close>
  (the \<open>n\<close>-th draw is \<open>uuid_hex n\<close>) and the document libraries. A library call that
  raises is \<open>None\<close>; \<open>pdf_write\<close> gives the bytes that reach the file and whether the
  call returned normally.
\<close>

record 'p env =
  uuid_hex :: "nat \<Rightarrow> string"
  PdfReader :: "bytes \<Rightarrow> 'p list option"
  pdf_write :: "'p list \<Rightarrow> bool \<times> bytes"
  compress_content_streams :: "'p \<Rightarrow> 'p option"
  rotate :: "int \<Rightarrow> 'p \<Rightarrow> 'p"
  img2pdf_convert :: "bytes list \<Rightarrow> bytes option"
  zip_archive :: "(string \<times> bytes) list \<Rightarrow> bytes"

record state =
  fs :: filesystem
  uuids :: nat

datatype header =
    X_Success_Message
  | Access_Control_Expose_Headers string
  | X_Savings_Percent int

datatype content = Message string | Message_str exn

datatype response =
    JSONResponse int content
  | FileResponse path string "header list"

text \<open>What a handler leaves: the response, the filesystem when it returns, and the
  task it added to \<^verbatim>\<open>background_tasks\<close>, if any.\<close>

record outcome =
  response :: response
  fs_after :: filesystem
  background :: "path list option"

text \<open>The filesystem once the background task has run after the response.\<close>

definition after_cleanup :: "outcome \<Rightarrow> filesystem" where
  "after_cleanup r =
     (case background r of None \<Rightarrow> fs_after r | Some ps \<Rightarrow> borrar_archivos ps (fs_after r))"

text \<open>A \<^verbatim>\<open>for\<close> loop whose body may raise: the exception leaves with the variables
  as they were at the raise.\<close>

fun for_each :: "('a \<Rightarrow> 's \<Rightarrow> (exn \<times> 's) + 's) \<Rightarrow> 'a list \<Rightarrow> 's \<Rightarrow> (exn \<times> 's) + 's" where
  "for_each body [] v = Inr v"
| "for_each body (x # xs) v =
     (case body x v of Inl r \<Rightarrow> Inl r | Inr v' \<Rightarrow> for_each body xs v')"

text \<open>Opening a stored document: the file must exist and parse.\<close>

definition read_pdf :: "'p env \<Rightarrow> path \<Rightarrow> filesystem \<Rightarrow> exn + 'p list" where
  "read_pdf E p f =
     (case f p of
        None \<Rightarrow> Inl FileNotFoundError
      | Some b \<Rightarrow> (case PdfReader E b of None \<Rightarrow> Inl LibraryError | Some pages \<Rightarrow> Inr pages))"

text \<open>\<^verbatim>\<open>with open(output_path, "wb") as f: writer.write(f)\<close>: the file is created
  empty, then receives what the writer emits; the writer may raise.\<close>

definition write_pdf :: "'p env \<Rightarrow> 'p list \<Rightarrow> path \<Rightarrow> filesystem \<Rightarrow> (exn \<times> filesystem) + filesystem" where
  "write_pdf E pages output_path f =
     (let f0 = f(output_path \<mapsto> []);
          (ok, b) = pdf_write E pages;
          f1 = f0(output_path \<mapsto> b)
      in if ok then Inr f1 else Inl (LibraryError, f1))"

text \<open>\<^verbatim>\<open>os.path.getsize\<close>.\<close>

definition getsize :: "path \<Rightarrow> filesystem \<Rightarrow> exn + int" where
  "getsize p f = (case f p of None \<Rightarrow> Inl FileNotFoundError | Some b \<Rightarrow> Inr (int (length b)))"

text \<open>\<^verbatim>\<open>os.path.basename\<close> (POSIX).\<close>

definition basename :: "path \<Rightarrow> string" where
  "basename p = drop (nat (rfind p CHR ''/'' + 1)) p"

text \<open>Indexing \<^verbatim>\<open>reader.pages[i]\<close>: negative indices count from the end.\<close>

definition get_page :: "'p list \<Rightarrow> int \<Rightarrow> exn + 'p" where
  "get_page pages i =
     (let n = int (length pages); j = (if i < 0 then n + i else i)
      in if 0 \<le> j \<and> j < n then Inr (pages ! nat j) else Inl IndexError)"


text \<open>A comprehension or loop that collects results and stops at the first raise.\<close>

fun collect :: "('a \<Rightarrow> exn + 'b) \<Rightarrow> 'a list \<Rightarrow> exn + 'b list" where
  "collect g [] = Inr []"
| "collect g (x # xs) =
     (case g x of
        Inl e \<Rightarrow> Inl e
      | Inr y \<Rightarrow> (case collect g xs of Inl e \<Rightarrow> Inl e | Inr ys \<Rightarrow> Inr (y # ys)))"

definition read_file :: "filesystem \<Rightarrow> path \<Rightarrow> exn + bytes" where
  "read_file f p = (case f p of None \<Rightarrow> Inl FileNotFoundError | Some b \<Rightarrow> Inr b)"

subsection \<open>Merge: \<^verbatim>\<open>api_unir\<close>\<close>

record vars = state +
  temp_paths :: "path list"

record 'p unir_vars = vars +
  merger :: "'p list"

definition unir_step :: "'p env \<Rightarrow> upload \<Rightarrow> 'p unir_vars \<Rightarrow> (exn \<times> 'p unir_vars) + 'p unir_vars" where
  "unir_step E f v =
     (case validar_extension (filename f) {''.pdf''} of
        Inl e \<Rightarrow> Inl (e, v)
      | Inr _ \<Rightarrow>
          let safe_filename = uuid_hex E (uuids v) @ ''.pdf'';
              v1 = v\<lparr>uuids := uuids v + 1\<rparr>;
              safe_path = path_join UPLOAD_DIR safe_filename
          in case guardar_con_limite f safe_path MAX_MB_PER_FILE (fs v1) of
               Inl (e, f') \<Rightarrow> Inl (e, v1\<lparr>fs := f'\<rparr>)
             | Inr f' \<Rightarrow>
                 let v2 = v1\<lparr>fs := f', temp_paths := temp_paths v1 @ [safe_path]\<rparr>
                 in case read_pdf E safe_path (fs v2) of
                      Inl e \<Rightarrow> Inl (e, v2)
                    | Inr pages \<Rightarrow> Inr (v2\<lparr>merger := merger v2 @ pages\<rparr>))"

text \<open>The body of the \<^verbatim>\<open>try\<close> block: the loop, then \<^verbatim>\<open>merger.write(output_path)\<close>,
  which opens the output file itself.\<close>

definition unir_try :: "'p env \<Rightarrow> upload list \<Rightarrow> path \<Rightarrow> 'p unir_vars \<Rightarrow> (exn \<times> 'p unir_vars) + 'p unir_vars" where
  "unir_try E files output_path v0 =
     (case for_each (unir_step E) files v0 of
        Inl r \<Rightarrow> Inl r
      | Inr v \<Rightarrow>
          (case write_pdf E (merger v) output_path (fs v) of
             Inl (e, f') \<Rightarrow> Inl (e, v\<lparr>fs := f'\<rparr>)
           | Inr f' \<Rightarrow> Inr (v\<lparr>fs := f'\<rparr>)))"

definition unir_output_path :: "'p env \<Rightarrow> state \<Rightarrow> path" where
  "unir_output_path E st = path_join OUTPUT_DIR (''Unido_'' @ uuid_hex E (uuids st) @ ''.pdf'')"

definition unir_init :: "state \<Rightarrow> 'p unir_vars" where
  "unir_init st = \<lparr>fs = fs st, uuids = uuids st + 1, temp_paths = [], merger = []\<rparr>"

definition api_unir :: "'p env \<Rightarrow> upload list \<Rightarrow> state \<Rightarrow> outcome" where
  "api_unir E files st =
     (if files = [] then
        \<lparr>response = JSONResponse 400 (Message ''No enviaste archivos.''),
         fs_after = fs st, background = None\<rparr>
      else
        let output_path = unir_output_path E st
        in case unir_try E files output_path (unir_init st) of
             Inr v \<Rightarrow>
               \<lparr>response = FileResponse output_path ''PDFlex_Unido.pdf'' [X_Success_Message],
                fs_after = fs v,
                background = Some (temp_paths v @ [output_path])\<rparr>
           | Inl (e, v) \<Rightarrow>
               \<lparr>response = JSONResponse 500 (Message_str e),
                fs_after = borrar_archivos (temp_paths v) (fs v),
                background = None\<rparr>)"

subsection \<open>Compress: \<^verbatim>\<open>api_comprimir\<close>\<close>

record comprimir_vars = state +
  processed_files :: "path list"
  temp_inputs :: "path list"
  total_orig :: int
  total_comp :: int

text \<open>The page loop: each page is added to the writer and its streams compressed.\<close>

fun compress_pages :: "'p env \<Rightarrow> 'p list \<Rightarrow> 'p list option" where
  "compress_pages E [] = Some []"
| "compress_pages E (p # ps) =
     (case compress_content_streams E p of
        None \<Rightarrow> None
      | Some p' \<Rightarrow> (case compress_pages E ps of None \<Rightarrow> None | Some r \<Rightarrow> Some (p' # r)))"

definition comprimir_step :: "'p env \<Rightarrow> upload \<Rightarrow> comprimir_vars \<Rightarrow> (exn \<times> comprimir_vars) + comprimir_vars" where
  "comprimir_step E f v =
     (case validar_extension (filename f) {''.pdf''} of
        Inl e \<Rightarrow> Inl (e, v)
      | Inr _ \<Rightarrow>
          let safe_filename = uuid_hex E (uuids v) @ ''.pdf'';
              v1 = v\<lparr>uuids := uuids v + 1\<rparr>;
              input_path = path_join UPLOAD_DIR safe_filename
          in case guardar_con_limite f input_path MAX_MB_PER_FILE (fs v1) of
               Inl (e, f') \<Rightarrow> Inl (e, v1\<lparr>fs := f'\<rparr>)
             | Inr f' \<Rightarrow>
                 let v2 = v1\<lparr>fs := f', temp_inputs := temp_inputs v1 @ [input_path]\<rparr>
                 in case getsize input_path (fs v2) of
                      Inl e \<Rightarrow> Inl (e, v2)
                    | Inr n \<Rightarrow>
                        let v3 = v2\<lparr>total_orig := total_orig v2 + n\<rparr>
                        in case read_pdf E input_path (fs v3) of
                             Inl e \<Rightarrow> Inl (e, v3)
                           | Inr pages \<Rightarrow>
                               (case compress_pages E pages of
                                  None \<Rightarrow> Inl (LibraryError, v3)
                                | Some pages' \<Rightarrow>
                                    let output_name = ''Mini_'' @ uuid_hex E (uuids v3) @ ''.pdf'';
                                        v4 = v3\<lparr>uuids := uuids v3 + 1\<rparr>;
                                        output_path = path_join OUTPUT_DIR output_name
                                    in case write_pdf E pages' output_path (fs v4) of
                                         Inl (e, f') \<Rightarrow> Inl (e, v4\<lparr>fs := f'\<rparr>)
                                       | Inr f' \<Rightarrow>
                                           let v5 = v4\<lparr>fs := f'\<rparr>
                                           in case getsize output_path (fs v5) of
                                                Inl e \<Rightarrow> Inl (e, v5)
                                              | Inr m \<Rightarrow>
                                                  Inr (v5\<lparr>total_comp := total_comp v5 + m,
                                                          processed_files := processed_files v5 @ [output_path]\<rparr>)))"

text \<open>The download: the single output, or a zip of all outputs. \<^verbatim>\<open>ZipFile(final_path, 'w')\<close>
  creates the archive before the members are read.\<close>

definition comprimir_pack :: "'p env \<Rightarrow> comprimir_vars \<Rightarrow> (exn \<times> comprimir_vars) + (comprimir_vars \<times> path \<times> string)" where
  "comprimir_pack E v =
     (if length (processed_files v) = 1 then
        Inr (v, processed_files v ! 0, ''PDFlex_Comprimido.pdf'')
      else
        let final_path = path_join OUTPUT_DIR (''Pack_'' @ uuid_hex E (uuids v) @ ''.zip'');
            v1 = v\<lparr>uuids := uuids v + 1, fs := (fs v)(final_path \<mapsto> [])\<rparr>
        in case collect (\<lambda>p. case read_file (fs v1) p of
                                 Inl e \<Rightarrow> Inl e
                               | Inr b \<Rightarrow> Inr (basename p, b)) (processed_files v1) of
             Inl e \<Rightarrow> Inl (e, v1)
           | Inr members \<Rightarrow>
               Inr (v1\<lparr>fs := (fs v1)(final_path \<mapsto> zip_archive E members),
                       processed_files := processed_files v1 @ [final_path]\<rparr>,
                    final_path, ''PDFlex_Pack.zip''))"

definition comprimir_try :: "'p env \<Rightarrow> upload list \<Rightarrow> comprimir_vars \<Rightarrow> (exn \<times> comprimir_vars) + (comprimir_vars \<times> path \<times> string)" where
  "comprimir_try E files v0 =
     (case for_each (comprimir_step E) files v0 of
        Inl r \<Rightarrow> Inl r
      | Inr v \<Rightarrow> comprimir_pack E v)"

definition comprimir_init :: "state \<Rightarrow> comprimir_vars" where
  "comprimir_init st =
     \<lparr>fs = fs st, uuids = uuids st, processed_files = [], temp_inputs = [],
      total_orig = 0, total_comp = 0\<rparr>"

definition api_comprimir :: "'p env \<Rightarrow> upload list \<Rightarrow> state \<Rightarrow> outcome" where
  "api_comprimir E files st =
     (if files = [] then
        \<lparr>response = JSONResponse 400 (Message ''Falta el archivo.''),
         fs_after = fs st, background = None\<rparr>
      else
        case comprimir_try E files (comprimir_init st) of
          Inr (v, final_path, download_name) \<Rightarrow>
            \<lparr>response = FileResponse final_path download_name
               [Access_Control_Expose_Headers ''X-Savings-Percent'',
                X_Savings_Percent (porcentaje (total_orig v) (total_comp v))],
             fs_after = fs v,
             background = Some (temp_inputs v @ processed_files v)\<rparr>
        | Inl (e, v) \<Rightarrow>
            \<lparr>response = JSONResponse 500 (Message_str e),
             fs_after = borrar_archivos (temp_inputs v @ processed_files v) (fs v),
             background = None\<rparr>)"


subsection \<open>Images to document: \<^verbatim>\<open>api_img2pdf\<close>\<close>

record img_vars = state +
  img_paths :: "path list"

definition img2pdf_step :: "'p env \<Rightarrow> upload \<Rightarrow> img_vars \<Rightarrow> (exn \<times> img_vars) + img_vars" where
  "img2pdf_step E f v =
     (case validar_extension (filename f) {''.jpg'', ''.jpeg'', ''.png''} of
        Inl e \<Rightarrow> Inl (e, v)
      | Inr ext \<Rightarrow>
          let safe_filename = uuid_hex E (uuids v) @ ext;
              v1 = v\<lparr>uuids := uuids v + 1\<rparr>;
              path = path_join UPLOAD_DIR safe_filename
          in case guardar_con_limite f path MAX_MB_PER_FILE (fs v1) of
               Inl (e, f') \<Rightarrow> Inl (e, v1\<lparr>fs := f'\<rparr>)
             | Inr f' \<Rightarrow> Inr (v1\<lparr>fs := f', img_paths := img_paths v1 @ [path]\<rparr>))"

definition img2pdf_try :: "'p env \<Rightarrow> upload list \<Rightarrow> path \<Rightarrow> img_vars \<Rightarrow> (exn \<times> img_vars) + img_vars" where
  "img2pdf_try E files output_path v0 =
     (case for_each (img2pdf_step E) files v0 of
        Inl r \<Rightarrow> Inl r
      | Inr v \<Rightarrow>
          (case collect (read_file (fs v)) (img_paths v) of
             Inl e \<Rightarrow> Inl (e, v)
           | Inr images \<Rightarrow>
               (case img2pdf_convert E images of
                  None \<Rightarrow> Inl (LibraryError, v)
                | Some pdf_bytes \<Rightarrow> Inr (v\<lparr>fs := (fs v)(output_path \<mapsto> pdf_bytes)\<rparr>))))"

definition img2pdf_output_path :: "'p env \<Rightarrow> state \<Rightarrow> path" where
  "img2pdf_output_path E st = path_join OUTPUT_DIR (''Album_'' @ uuid_hex E (uuids st) @ ''.pdf'')"

definition img2pdf_init :: "state \<Rightarrow> img_vars" where
  "img2pdf_init st = \<lparr>fs = fs st, uuids = uuids st + 1, img_paths = []\<rparr>"

definition api_img2pdf :: "'p env \<Rightarrow> upload list \<Rightarrow> state \<Rightarrow> outcome" where
  "api_img2pdf E files st =
     (if files = [] then
        \<lparr>response = JSONResponse 400 (Message (''No hay im'' @ char_of (225 :: nat) # ''genes.'')),
         fs_after = fs st, background = None\<rparr>
      else
        let output_path = img2pdf_output_path E st
        in case img2pdf_try E files output_path (img2pdf_init st) of
             Inr v \<Rightarrow>
               \<lparr>response = FileResponse output_path ''PDFlex_Album.pdf'' [],
                fs_after = fs v,
                background = Some (img_paths v @ [output_path])\<rparr>
           | Inl (e, v) \<Rightarrow>
               \<lparr>response = JSONResponse 500 (Message_str e),
                fs_after = borrar_archivos (img_paths v) (fs v),
                background = None\<rparr>)"

subsection \<open>Extract pages: \<^verbatim>\<open>api_extraer\<close>\<close>

text \<open>The result of a \<^verbatim>\<open>try\<close> block that ends by writing one output: the variables
  and the output path.\<close>

definition extraer_try :: "'p env \<Rightarrow> upload \<Rightarrow> int \<Rightarrow> int \<Rightarrow> vars \<Rightarrow> (exn \<times> vars) + (vars \<times> path)" where
  "extraer_try E f inicio fin v =
     (case validar_extension (filename f) {''.pdf''} of
        Inl e \<Rightarrow> Inl (e, v)
      | Inr _ \<Rightarrow>
          let safe_filename = uuid_hex E (uuids v) @ ''.pdf'';
              v1 = v\<lparr>uuids := uuids v + 1\<rparr>;
              input_path = path_join UPLOAD_DIR safe_filename
          in case guardar_con_limite f input_path MAX_MB_PER_FILE (fs v1) of
               Inl (e, f') \<Rightarrow> Inl (e, v1\<lparr>fs := f'\<rparr>)
             | Inr f' \<Rightarrow>
                 let v2 = v1\<lparr>fs := f', temp_paths := temp_paths v1 @ [input_path]\<rparr>
                 in case read_pdf E input_path (fs v2) of
                      Inl e \<Rightarrow> Inl (e, v2)
                    | Inr pages \<Rightarrow>
                        let total_pages = int (length pages)
                        in if inicio < 1 \<or> fin > total_pages \<or> inicio > fin then
                             Inl (HTTPException 400 (Rango_invalido total_pages), v2)
                           else
                             (case collect (get_page pages) [inicio - 1 .. fin - 1] of
                                Inl e \<Rightarrow> Inl (e, v2)
                              | Inr selected \<Rightarrow>
                                  let output_filename = ''Extraido_'' @ uuid_hex E (uuids v2) @ ''.pdf'';
                                      v3 = v2\<lparr>uuids := uuids v2 + 1\<rparr>;
                                      output_path = path_join OUTPUT_DIR output_filename
                                  in case write_pdf E selected output_path (fs v3) of
                                       Inl (e, f') \<Rightarrow> Inl (e, v3\<lparr>fs := f'\<rparr>)
                                     | Inr f' \<Rightarrow> Inr (v3\<lparr>fs := f'\<rparr>, output_path)))"

definition vars_init :: "state \<Rightarrow> vars" where
  "vars_init st = \<lparr>fs = fs st, uuids = uuids st, temp_paths = []\<rparr>"

definition api_extraer :: "'p env \<Rightarrow> upload \<Rightarrow> int \<Rightarrow> int \<Rightarrow> state \<Rightarrow> outcome" where
  "api_extraer E f inicio fin st =
     (case extraer_try E f inicio fin (vars_init st) of
        Inr (v, output_path) \<Rightarrow>
          \<lparr>response = FileResponse output_path ''PDFlex_Extraido.pdf'' [],
           fs_after = fs v,
           background = Some (temp_paths v @ [output_path])\<rparr>
      | Inl (e, v) \<Rightarrow>
          \<lparr>response = JSONResponse 500 (Message_str e),
           fs_after = borrar_archivos (temp_paths v) (fs v),
           background = None\<rparr>)"

subsection \<open>Rotate: \<^verbatim>\<open>api_rotar\<close>\<close>

definition rotar_try :: "'p env \<Rightarrow> upload \<Rightarrow> int \<Rightarrow> vars \<Rightarrow> (exn \<times> vars) + (vars \<times> path)" where
  "rotar_try E f grados v =
     (case validar_extension (filename f) {''.pdf''} of
        Inl e \<Rightarrow> Inl (e, v)
      | Inr _ \<Rightarrow>
          if grados \<notin> set [90, 180, 270] then
            Inl (HTTPException 400 Solo_grados, v)
          else
            let safe_filename = uuid_hex E (uuids v) @ ''.pdf'';
                v1 = v\<lparr>uuids := uuids v + 1\<rparr>;
                input_path = path_join UPLOAD_DIR safe_filename
            in case guardar_con_limite f input_path MAX_MB_PER_FILE (fs v1) of
                 Inl (e, f') \<Rightarrow> Inl (e, v1\<lparr>fs := f'\<rparr>)
               | Inr f' \<Rightarrow>
                   let v2 = v1\<lparr>fs := f', temp_paths := temp_paths v1 @ [input_path]\<rparr>
                   in case read_pdf E input_path (fs v2) of
                        Inl e \<Rightarrow> Inl (e, v2)
                      | Inr pages \<Rightarrow>
                          let rotated = map (rotate E grados) pages;
                              output_filename = ''Rotado_'' @ uuid_hex E (uuids v2) @ ''.pdf'';
                              v3 = v2\<lparr>uuids := uuids v2 + 1\<rparr>;
                              output_path = path_join OUTPUT_DIR output_filename
                          in case write_pdf E rotated output_path (fs v3) of
                               Inl (e, f') \<Rightarrow> Inl (e, v3\<lparr>fs := f'\<rparr>)
                             | Inr f' \<Rightarrow> Inr (v3\<lparr>fs := f'\<rparr>, output_path))"

definition api_rotar :: "'p env \<Rightarrow> upload \<Rightarrow> int \<Rightarrow> state \<Rightarrow> outcome" where
  "api_rotar E f grados st =
     (case rotar_try E f grados (vars_init st) of
        Inr (v, output_path) \<Rightarrow>
          \<lparr>response = FileResponse output_path ''PDFlex_Rotado.pdf'' [],
           fs_after = fs v,
           background = Some (temp_paths v @ [output_path])\<rparr>
      | Inl (e, v) \<Rightarrow>
          \<lparr>response = JSONResponse 500 (Message_str e),
           fs_after = borrar_archivos (temp_paths v) (fs v),
           background = None\<rparr>)"


subsection \<open>An invariant of the handlers' bookkeeping\<close>

text \<open>Going from filesystem \<open>f\<close> with recorded paths \<open>ps\<close> to \<open>f'\<close> with \<open>ps'\<close>: every
  file that was added is among the recorded paths, and no recorded path was dropped.\<close>

definition recorded :: "filesystem \<Rightarrow> path list \<Rightarrow> filesystem \<Rightarrow> path list \<Rightarrow> bool" where
  "recorded f ps f' ps' \<longleftrightarrow> dom f' \<subseteq> dom f \<union> set ps' \<and> set ps \<subseteq> set ps'"

subsection \<open>Test fixtures\<close>

text \<open>
  A concrete environment for evaluating the handlers: the \<open>n\<close>-th identifier is
  \<open>n + 1\<close> letters \<open>a\<close>, a document has one page per byte (an empty file does not
  parse), and every library call succeeds. In \<open>broken_writer_env\<close> the PDF writer
  raises after the output file has been opened.
\<close>

definition test_env :: "nat env" where
  "test_env =
     \<lparr>uuid_hex = (\<lambda>n. replicate (Suc n) CHR ''a''),
      PdfReader = (\<lambda>b. if b = [] then None else Some (map unat b)),
      pdf_write = (\<lambda>pages. (True, map of_nat pages)),
      compress_content_streams = Some,
      rotate = (\<lambda>g p. p),
      img2pdf_convert = (\<lambda>images. Some (concat images)),
      zip_archive = (\<lambda>members. concat (map snd members))\<rparr>"

definition broken_writer_env :: "nat env" where
  "broken_writer_env = test_env\<lparr>pdf_write := (\<lambda>pages. (False, []))\<rparr>"

definition empty_state :: state where
  "empty_state = \<lparr>fs = Map.empty, uuids = 0\<rparr>"


section \<open>Properties\<close>

text \<open>Unfolding rules that evaluate the helpers on concrete inputs.\<close>

lemmas eval_defs = validar_extension_def splitext_def rfind_def lower_def lower_char_def
  char_of_def bit_Suc_0_iff guardar_con_limite_def guardar_loop.simps skip_leading_dots.simps
  path_join_def UPLOAD_DIR_def OUTPUT_DIR_def MAX_MB_PER_FILE_def
  read_pdf_def write_pdf_def getsize_def read_file_def basename_def Let_def
  test_env_def broken_writer_env_def empty_state_def

subsection \<open>The bounded stream writer\<close>

lemma guardar_loop_result:
  assumes "0 < n" "f d = Some acc" "k = int (length acc)" "k \<le> limit"
  shows "guardar_loop n m limit d s k f =
     (if k + int (length s) > limit
      then Inl (HTTPException 413 (Excede_limite m), f(d := None))
      else Inr (f(d \<mapsto> acc @ s)))"
  using assms
proof (induction n m limit d s k f arbitrary: acc rule: guardar_loop.induct)
  case (1 n m limit d s k f)
  note pos = \<open>0 < n\<close> and look = \<open>f d = Some acc\<close>
    and kacc = \<open>k = int (length acc)\<close> and kle = \<open>k \<le> limit\<close>
  show ?case
  proof (cases "take n s = []")
    case True
    with pos have "s = []" by simp
    with look kle show ?thesis
      by (subst guardar_loop.simps) (auto simp: Let_def)
  next
    case nonempty: False
    let ?c = "take n s"
    let ?k = "k + int (length ?c)"
    show ?thesis
    proof (cases "?k > limit")
      case True
      have "length ?c \<le> length s" by simp
      with True have big: "k + int (length s) > limit" by linarith
      have "guardar_loop n m limit d s k f =
          Inl (HTTPException 413 (Excede_limite m), f(d := None))"
        using True nonempty look
        by (subst guardar_loop.simps) (auto simp: Let_def)
      with big show ?thesis by simp
    next
      case False
      let ?fs = "f(d \<mapsto> (case f d of None \<Rightarrow> [] | Some b \<Rightarrow> b) @ ?c)"
      have fs_eq: "?fs = f(d \<mapsto> acc @ ?c)" using look by simp
      have IH: "guardar_loop n m limit d (drop n s) ?k ?fs =
         (if ?k + int (length (drop n s)) > limit
          then Inl (HTTPException 413 (Excede_limite m), ?fs(d := None))
          else Inr (?fs(d \<mapsto> (acc @ ?c) @ drop n s)))"
      proof (rule "1.IH"[OF refl nonempty refl False pos])
        show "?fs d = Some (acc @ ?c)" using look by simp
        show "?k = int (length (acc @ ?c))" using kacc by simp
        show "?k \<le> limit" using False by simp
      qed
      have len: "int (length ?c) + int (length (drop n s)) = int (length s)"
        by (metis append_take_drop_id length_append of_nat_add)
      have step: "guardar_loop n m limit d s k f = guardar_loop n m limit d (drop n s) ?k ?fs"
        using nonempty False
        by (subst guardar_loop.simps) (simp add: Let_def)
      have k_eq: "?k + int (length (drop n s)) = k + int (length s)"
        using len by linarith
      have cat: "(acc @ ?c) @ drop n s = acc @ s" by simp
      show ?thesis
        unfolding step IH k_eq cat by (auto simp: fs_eq)
    qed
  qed
qed

lemma guardar_con_limite_result:
  "guardar_con_limite u d max_mb f =
     (if file_stream u \<noteq> [] \<and> int (length (file_stream u)) > max_mb * 1024 * 1024
      then Inl (HTTPException 413 (Excede_limite max_mb), f(d := None))
      else Inr (f(d \<mapsto> file_stream u)))"
proof (cases "0 \<le> max_mb * 1024 * 1024")
  case True
  have "guardar_loop (1024 * 1024) max_mb (max_mb * 1024 * 1024) d (file_stream u) 0 (f(d \<mapsto> [])) =
     (if 0 + int (length (file_stream u)) > max_mb * 1024 * 1024
      then Inl (HTTPException 413 (Excede_limite max_mb), (f(d \<mapsto> []))(d := None))
      else Inr ((f(d \<mapsto> []))(d \<mapsto> [] @ file_stream u)))"
    by (rule guardar_loop_result) (use True in simp_all)
  then show ?thesis
    using True by (auto simp: guardar_con_limite_def)
next
  case False
  show ?thesis
  proof (cases "file_stream u")
    case Nil
    then show ?thesis
      by (simp add: guardar_con_limite_def guardar_loop.simps)
  next
    case (Cons b bs)
    then have "take (1024 * 1024) (file_stream u) \<noteq> []" by simp
    moreover have "0 + int (length (take (1024 * 1024) (file_stream u))) > max_mb * 1024 * 1024"
      using False by linarith
    moreover have "int (length (file_stream u)) > max_mb * 1024 * 1024"
      using False by linarith
    ultimately show ?thesis
      using Cons
      by (subst guardar_con_limite_def, subst Let_def, subst guardar_loop.simps)
         (auto simp: Let_def)
  qed
qed

text \<open>
  Claim C1. With a non-negative ceiling \<open>max_mb\<close>, an upload longer than
  \<open>max_mb * 1024 * 1024\<close> bytes makes \<open>guardar_con_limite\<close> raise the 413 exception
  and the destination path does not exist afterwards; an upload within the limit is
  stored and the destination holds exactly the bytes of the stream.
\<close>

theorem guardar_con_limite_bounded:
  assumes "0 \<le> max_mb"
  shows "(int (length (file_stream u)) > max_mb * 1024 * 1024 \<longrightarrow>
            guardar_con_limite u d max_mb f
              = Inl (HTTPException 413 (Excede_limite max_mb), f(d := None))
            \<and> (f(d := None)) d = None)
       \<and> (int (length (file_stream u)) \<le> max_mb * 1024 * 1024 \<longrightarrow>
            guardar_con_limite u d max_mb f = Inr (f(d \<mapsto> file_stream u))
            \<and> (f(d \<mapsto> file_stream u)) d = Some (file_stream u))"
proof -
  have "file_stream u \<noteq> []" if "int (length (file_stream u)) > max_mb * 1024 * 1024"
    using that assms by auto
  then show ?thesis
    by (auto simp: guardar_con_limite_result)
qed

theorem guardar_con_limite_bounded_witness:
  "(0::int) \<le> 0
   \<and> guardar_con_limite \<lparr>filename = ''big.pdf'', file_stream = [1]\<rparr> ''d'' 0 [''d'' \<mapsto> [7]]
       = Inl (HTTPException 413 (Excede_limite 0), Map.empty)
   \<and> guardar_con_limite \<lparr>filename = ''ok.pdf'', file_stream = [1, 2]\<rparr> ''d'' 1 Map.empty
       = Inr [''d'' \<mapsto> [1, 2]]"
  using guardar_con_limite_bounded [of 0 "\<lparr>filename = ''big.pdf'', file_stream = [1]\<rparr>" "''d''" "[''d'' \<mapsto> [7]]"]
    guardar_con_limite_bounded [of 1 "\<lparr>filename = ''ok.pdf'', file_stream = [1, 2]\<rparr>" "''d''" Map.empty]
  by simp

subsection \<open>The extension policy validator\<close>

lemma rfind_go_snoc:
  "rfind_go c (xs @ [x]) i r = (if x = c then i + int (length xs) else rfind_go c xs i r)"
  by (induction xs arbitrary: i r) auto

lemma rfind_snoc:
  "rfind (xs @ [x]) c = (if x = c then int (length xs) else rfind xs c)"
  by (simp add: rfind_def rfind_go_snoc)

lemma rfind_Nil: "rfind [] c = - 1"
  by (simp add: rfind_def)

lemma rfind_absent: "c \<notin> set p \<Longrightarrow> rfind p c = - 1"
  by (induction p rule: rev_induct) (auto simp: rfind_Nil rfind_snoc)

lemma rfind_present:
  "c \<in> set p \<Longrightarrow> \<exists>pre suf. p = pre @ c # suf \<and> c \<notin> set suf \<and> rfind p c = int (length pre)"
proof (induction p rule: rev_induct)
  case Nil
  then show ?case by simp
next
  case (snoc x xs)
  show ?case
  proof (cases "x = c")
    case True
    then have "xs @ [x] = xs @ c # [] \<and> c \<notin> set [] \<and> rfind (xs @ [x]) c = int (length xs)"
      by (simp add: rfind_snoc)
    then show ?thesis by blast
  next
    case False
    with snoc.prems have "c \<in> set xs" by simp
    from snoc.IH[OF this] obtain pre suf where
      h: "xs = pre @ c # suf" "c \<notin> set suf" "rfind xs c = int (length pre)" by blast
    have "xs @ [x] = pre @ c # (suf @ [x]) \<and> c \<notin> set (suf @ [x])
        \<and> rfind (xs @ [x]) c = int (length pre)"
      using h False rfind_snoc[of xs x c] by simp
    then show ?thesis by blast
  qed
qed

lemma rfind_range: "- 1 \<le> rfind p c \<and> rfind p c < int (length p)"
  by (induction p rule: rev_induct) (auto simp: rfind_Nil rfind_snoc)

lemma rfind_lower_bound:
  "p = pre @ c # suf \<Longrightarrow> int (length pre) \<le> rfind p c"
proof (induction suf arbitrary: p rule: rev_induct)
  case Nil
  then show ?case by (simp add: rfind_snoc)
next
  case (snoc x xs)
  have "p = (pre @ c # xs) @ [x]" using snoc.prems by simp
  then have "rfind p c = (if x = c then int (length (pre @ c # xs)) else rfind (pre @ c # xs) c)"
    by (simp only: rfind_snoc)
  with snoc.IH[OF refl] show ?case by auto
qed

lemma skip_leading_dots_Some:
  "skip_leading_dots p d i = Some r \<Longrightarrow> r = (take (nat d) p, drop (nat d) p) \<and> i < d"
proof (induction p d i rule: skip_leading_dots.induct)
  case (1 p d i)
  then show ?case
    by (subst (asm) (2) skip_leading_dots.simps) (auto split: if_splits)
qed

lemma splitext_concat: "fst (splitext p) @ snd (splitext p) = p"
  by (auto simp: splitext_def Let_def split: option.splits dest: skip_leading_dots_Some)

lemma splitext_suffix_shape:
  assumes "snd (splitext p) \<noteq> []"
  shows "\<exists>root suf. p = root @ CHR ''.'' # suf \<and> snd (splitext p) = CHR ''.'' # suf
           \<and> CHR ''.'' \<notin> set suf \<and> CHR ''/'' \<notin> set suf \<and> root \<noteq> []"
proof -
  let ?d = "rfind p CHR ''.''" and ?s = "rfind p CHR ''/''"
  from assms obtain r where gt: "?d > ?s"
    and sk: "skip_leading_dots p ?d (?s + 1) = Some r" and r: "splitext p = r"
    by (auto simp: splitext_def Let_def split: option.splits if_splits)
  from skip_leading_dots_Some[OF sk]
  have r_eq: "r = (take (nat ?d) p, drop (nat ?d) p)" and lt: "?s + 1 < ?d" by auto
  have "?d \<noteq> - 1" using rfind_range[of p "CHR ''/''"] gt by linarith
  then have "CHR ''.'' \<in> set p" using rfind_absent by metis
  from rfind_present[OF this] obtain pre suf where
    h: "p = pre @ CHR ''.'' # suf" "CHR ''.'' \<notin> set suf" "?d = int (length pre)" by blast
  have ext: "snd (splitext p) = CHR ''.'' # suf"
    using r r_eq h by simp
  have noslash: "CHR ''/'' \<notin> set suf"
  proof
    assume "CHR ''/'' \<in> set suf"
    then obtain a b where "suf = a @ CHR ''/'' # b" by (meson split_list)
    then have "p = (pre @ CHR ''.'' # a) @ CHR ''/'' # b" using h(1) by simp
    from rfind_lower_bound[OF this] have "int (length pre) + 1 \<le> ?s" by simp
    with gt h(3) show False by linarith
  qed
  have "pre \<noteq> []" using lt h(3) rfind_range[of p "CHR ''/''"] by auto
  with h ext noslash show ?thesis by blast
qed

lemma splitext_no_dot: "CHR ''.'' \<notin> set p \<Longrightarrow> snd (splitext p) = []"
  using rfind_range[of p "CHR ''/''"]
  by (simp add: splitext_def Let_def rfind_absent)

lemma splitext_leading_dot:
  assumes "CHR ''.'' \<notin> set n" "CHR ''/'' \<notin> set n"
  shows "snd (splitext (CHR ''.'' # n)) = []"
proof -
  have d: "rfind (CHR ''.'' # n) CHR ''.'' = 0"
    using assms(1) rfind_present[of "CHR ''.''" "CHR ''.'' # n"]
    by (auto simp: Cons_eq_append_conv)
  have s: "rfind (CHR ''.'' # n) CHR ''/'' = - 1"
    using assms(2) by (simp add: rfind_absent)
  show ?thesis
    by (simp add: splitext_def d s skip_leading_dots.simps)
qed

lemma lower_char_not_capital:
  "\<not> (65 \<le> (of_char (lower_char c) :: nat) \<and> (of_char (lower_char c) :: nat) \<le> 90)"
  by (auto simp: lower_char_def Let_def)

lemma validar_extension_eq:
  "validar_extension fname permitidas =
     (if lower (snd (splitext fname)) \<in> permitidas
      then Inr (lower (snd (splitext fname)))
      else Inl (HTTPException 400 (Extension_no_permitida (lower (snd (splitext fname))))))"
  by (simp add: validar_extension_def Let_def)

text \<open>
  Claim C9. \<open>validar_extension\<close> takes the final suffix of the filename (what
  \<open>splitext\<close> splits off: the last dot of the last path component and what follows it),
  lowercases it, and returns it exactly when it belongs to the allowed set; otherwise it
  raises the 400 exception. \<open>a.PDF\<close> is accepted for \<open>{.pdf}\<close> and \<open>a.exe\<close> is rejected.
  The function takes and returns no state: it has no side effect.
\<close>

theorem validar_extension_policy:
  "validar_extension fname permitidas =
     (if lower (snd (splitext fname)) \<in> permitidas
      then Inr (lower (snd (splitext fname)))
      else Inl (HTTPException 400 (Extension_no_permitida (lower (snd (splitext fname))))))
   \<and> fst (splitext fname) @ snd (splitext fname) = fname
   \<and> (snd (splitext fname) \<noteq> [] \<longrightarrow>
        (\<exists>root suf. fname = root @ CHR ''.'' # suf \<and> snd (splitext fname) = CHR ''.'' # suf
           \<and> CHR ''.'' \<notin> set suf \<and> CHR ''/'' \<notin> set suf \<and> root \<noteq> []))
   \<and> length (lower (snd (splitext fname))) = length (snd (splitext fname))
   \<and> (\<forall>c \<in> set (lower (snd (splitext fname))). \<not> (65 \<le> (of_char c :: nat) \<and> (of_char c :: nat) \<le> 90))
   \<and> validar_extension ''a.PDF'' {''.pdf''} = Inr ''.pdf''
   \<and> validar_extension ''a.exe'' {''.pdf''}
         = Inl (HTTPException 400 (Extension_no_permitida ''.exe''))"
proof (intro conjI)
  show "validar_extension fname permitidas =
     (if lower (snd (splitext fname)) \<in> permitidas
      then Inr (lower (snd (splitext fname)))
      else Inl (HTTPException 400 (Extension_no_permitida (lower (snd (splitext fname))))))"
    by (rule validar_extension_eq)
  show "fst (splitext fname) @ snd (splitext fname) = fname"
    by (rule splitext_concat)
  show "snd (splitext fname) \<noteq> [] \<longrightarrow>
        (\<exists>root suf. fname = root @ CHR ''.'' # suf \<and> snd (splitext fname) = CHR ''.'' # suf
           \<and> CHR ''.'' \<notin> set suf \<and> CHR ''/'' \<notin> set suf \<and> root \<noteq> [])"
    using splitext_suffix_shape by blast
  show "length (lower (snd (splitext fname))) = length (snd (splitext fname))"
    by (simp add: lower_def)
  show "\<forall>c \<in> set (lower (snd (splitext fname))). \<not> (65 \<le> (of_char c :: nat) \<and> (of_char c :: nat) \<le> 90)"
    using lower_char_not_capital by (auto simp: lower_def)
  show "validar_extension ''a.PDF'' {''.pdf''} = Inr ''.pdf''"
    by (simp add: eval_defs)
  show "validar_extension ''a.exe'' {''.pdf''}
         = Inl (HTTPException 400 (Extension_no_permitida ''.exe''))"
    by (simp add: eval_defs)
qed

theorem validar_extension_policy_witness:
  "snd (splitext ''dir.d/report.final.PDF'') \<noteq> []
   \<and> snd (splitext ''dir.d/report.final.PDF'') = ''.PDF''
   \<and> validar_extension ''dir.d/report.final.PDF'' {''.pdf''} = Inr ''.pdf''
   \<and> (\<exists>root suf. ''dir.d/report.final.PDF'' = root @ CHR ''.'' # suf \<and> ''.PDF'' = CHR ''.'' # suf
           \<and> CHR ''.'' \<notin> set suf \<and> CHR ''/'' \<notin> set suf \<and> root \<noteq> [])
   \<and> length (lower ''.PDF'') = length ''.PDF''"
proof -
  have s: "snd (splitext ''dir.d/report.final.PDF'') = ''.PDF''"
    by (simp add: eval_defs)
  have l: "lower ''.PDF'' = ''.pdf''"
    by (simp add: eval_defs)
  show ?thesis
    using validar_extension_policy [of "''dir.d/report.final.PDF''" "{''.pdf''}"]
    unfolding s l by simp
qed

subsection \<open>Loops that stop at the first exception\<close>

lemma for_each_append:
  "for_each body (xs @ ys) v =
     (case for_each body xs v of Inl r \<Rightarrow> Inl r | Inr v' \<Rightarrow> for_each body ys v')"
  by (induction xs arbitrary: v) (auto split: sum.splits)

lemma for_each_raise_at:
  assumes "\<And>v. body x v = Inl (e, v)"
  shows "for_each body (pre @ x # post) v =
     (case for_each body pre v of Inl r \<Rightarrow> Inl r | Inr v' \<Rightarrow> Inl (e, v'))"
  by (simp add: for_each_append assms split: sum.splits)

subsection \<open>Filenames without a suffix\<close>

text \<open>
  Claim C10. A filename whose extracted suffix is empty is rejected by the validator
  for every allowed set the program uses, with the 400 exception; in each handler the
  exception leaves with the variables unchanged, so nothing of that upload is written:
  in a loop over several files the state at the raise is the state after the files
  before it. A name without a dot, and a name that is only a leading-dot component,
  have an empty suffix.
\<close>

theorem empty_suffix_rejected:
  assumes "snd (splitext (filename f)) = []"
  shows "(\<forall>A \<in> {{''.pdf''}, {''.jpg'', ''.jpeg'', ''.png''}, ALLOWED_EXTENSIONS}.
            validar_extension (filename f) A = Inl (HTTPException 400 (Extension_no_permitida [])))
       \<and> unir_step E f uv = Inl (HTTPException 400 (Extension_no_permitida []), uv)
       \<and> comprimir_step E f cv = Inl (HTTPException 400 (Extension_no_permitida []), cv)
       \<and> img2pdf_step E f iv = Inl (HTTPException 400 (Extension_no_permitida []), iv)
       \<and> extraer_try E f inicio fin w = Inl (HTTPException 400 (Extension_no_permitida []), w)
       \<and> rotar_try E f grados w = Inl (HTTPException 400 (Extension_no_permitida []), w)
       \<and> for_each (unir_step E) (pre @ f # post) uv =
            (case for_each (unir_step E) pre uv of
               Inl r \<Rightarrow> Inl r
             | Inr v' \<Rightarrow> Inl (HTTPException 400 (Extension_no_permitida []), v'))
       \<and> for_each (comprimir_step E) (pre @ f # post) cv =
            (case for_each (comprimir_step E) pre cv of
               Inl r \<Rightarrow> Inl r
             | Inr v' \<Rightarrow> Inl (HTTPException 400 (Extension_no_permitida []), v'))
       \<and> for_each (img2pdf_step E) (pre @ f # post) iv =
            (case for_each (img2pdf_step E) pre iv of
               Inl r \<Rightarrow> Inl r
             | Inr v' \<Rightarrow> Inl (HTTPException 400 (Extension_no_permitida []), v'))
       \<and> (\<forall>n. CHR ''.'' \<notin> set n \<longrightarrow> snd (splitext n) = [])
       \<and> (\<forall>n. CHR ''.'' \<notin> set n \<and> CHR ''/'' \<notin> set n \<longrightarrow> snd (splitext (CHR ''.'' # n)) = [])"
proof -
  have low: "lower (snd (splitext (filename f))) = []"
    using assms by (simp add: lower_def)
  have pdf: "validar_extension (filename f) {''.pdf''}
      = Inl (HTTPException 400 (Extension_no_permitida []))"
    by (simp add: validar_extension_eq low)
  have img: "validar_extension (filename f) {''.jpg'', ''.jpeg'', ''.png''}
      = Inl (HTTPException 400 (Extension_no_permitida []))"
    by (simp add: validar_extension_eq low)
  have all: "validar_extension (filename f) ALLOWED_EXTENSIONS
      = Inl (HTTPException 400 (Extension_no_permitida []))"
    by (simp add: validar_extension_eq low ALLOWED_EXTENSIONS_def)
  have u: "unir_step E f v = Inl (HTTPException 400 (Extension_no_permitida []), v)" for v
    by (simp add: unir_step_def pdf)
  have c: "comprimir_step E f v = Inl (HTTPException 400 (Extension_no_permitida []), v)" for v
    by (simp add: comprimir_step_def pdf)
  have i: "img2pdf_step E f v = Inl (HTTPException 400 (Extension_no_permitida []), v)" for v
    by (simp add: img2pdf_step_def img)
  have x: "extraer_try E f inicio fin w = Inl (HTTPException 400 (Extension_no_permitida []), w)"
    by (simp add: extraer_try_def pdf)
  have r: "rotar_try E f grados w = Inl (HTTPException 400 (Extension_no_permitida []), w)"
    by (simp add: rotar_try_def pdf)
  show ?thesis
    using pdf img all u c i x r
      for_each_raise_at[of "unir_step E" f, OF u]
      for_each_raise_at[of "comprimir_step E" f, OF c]
      for_each_raise_at[of "img2pdf_step E" f, OF i]
      splitext_no_dot splitext_leading_dot
    by simp
qed

theorem empty_suffix_rejected_witness:
  "snd (splitext (filename \<lparr>filename = ''document'', file_stream = [1]\<rparr>)) = []
   \<and> snd (splitext (filename \<lparr>filename = ''.pdf'', file_stream = [1]\<rparr>)) = []
   \<and> validar_extension ''document'' {''.pdf''} = Inl (HTTPException 400 (Extension_no_permitida []))
   \<and> validar_extension ''.pdf'' {''.pdf''} = Inl (HTTPException 400 (Extension_no_permitida []))
   \<and> validar_extension ''.pdf'' ALLOWED_EXTENSIONS = Inl (HTTPException 400 (Extension_no_permitida []))
   \<and> fs_after (api_unir test_env [\<lparr>filename = ''.pdf'', file_stream = [1]\<rparr>] empty_state) = Map.empty"
proof -
  have a: "snd (splitext (filename \<lparr>filename = ''document'', file_stream = [1]\<rparr>)) = []"
    by (simp add: eval_defs)
  have b: "snd (splitext (filename \<lparr>filename = ''.pdf'', file_stream = [1]\<rparr>)) = []"
    by (simp add: eval_defs)
  have c: "fs_after (api_unir test_env [\<lparr>filename = ''.pdf'', file_stream = [1]\<rparr>] empty_state) = Map.empty"
    using empty_suffix_rejected [OF b, of test_env "unir_init empty_state"]
    by (simp add: api_unir_def unir_try_def unir_init_def empty_state_def)
  show ?thesis
    using a b c empty_suffix_rejected [OF a, of test_env] empty_suffix_rejected [OF b, of test_env]
    by simp
qed

subsection \<open>Page extraction\<close>

lemma guardar_within_limit:
  "int (length (file_stream u)) \<le> MAX_MB_PER_FILE * 1024 * 1024 \<Longrightarrow>
   guardar_con_limite u d MAX_MB_PER_FILE f = Inr (f(d \<mapsto> file_stream u))"
  by (simp add: guardar_con_limite_result)

lemma collect_get_page:
  "0 \<le> i \<Longrightarrow> j < int (length pages) \<Longrightarrow>
   collect (get_page pages) [i..j] = Inr (take (nat (j - i + 1)) (drop (nat i) pages))"
proof (induction i j rule: upto.induct)
  case (1 i j)
  show ?case
  proof (cases "i \<le> j")
    case False
    then show ?thesis by simp
  next
    case True
    have IH: "collect (get_page pages) [i + 1..j]
        = Inr (take (nat (j - (i + 1) + 1)) (drop (nat (i + 1)) pages))"
      using 1 True by simp
    have lt: "nat i < length pages" using 1(2,3) True by linarith
    have g: "get_page pages i = Inr (pages ! nat i)"
      using 1(2) lt by (simp add: get_page_def Let_def)
    have n: "nat (j - i + 1) = Suc (nat (j - (i + 1) + 1))" using True by linarith
    have d: "drop (nat i) pages = pages ! nat i # drop (nat (i + 1)) pages"
      using lt 1(2) by (simp add: Cons_nth_drop_Suc nat_add_distrib)
    have "collect (get_page pages) [i..j] = collect (get_page pages) (i # [i + 1..j])"
      using True by (simp add: upto_rec1)
    then show ?thesis
      by (simp add: g IH n d)
  qed
qed

lemma extraer_try_ingested:
  assumes ext: "validar_extension (filename f) {''.pdf''} = Inr e"
    and size: "int (length (file_stream f)) \<le> MAX_MB_PER_FILE * 1024 * 1024"
    and parse: "PdfReader E (file_stream f) = Some pages"
  shows "extraer_try E f inicio fin v =
    (let input_path = path_join UPLOAD_DIR (uuid_hex E (uuids v) @ ''.pdf'');
         v2 = v\<lparr>uuids := uuids v + 1, fs := (fs v)(input_path \<mapsto> file_stream f),
                 temp_paths := temp_paths v @ [input_path]\<rparr>
     in if inicio < 1 \<or> fin > int (length pages) \<or> inicio > fin then
          Inl (HTTPException 400 (Rango_invalido (int (length pages))), v2)
        else
          let selected = take (nat (fin - inicio + 1)) (drop (nat (inicio - 1)) pages);
              output_path = path_join OUTPUT_DIR (''Extraido_'' @ uuid_hex E (uuids v2) @ ''.pdf'');
              v3 = v2\<lparr>uuids := uuids v2 + 1, fs := (fs v2)(output_path \<mapsto> snd (pdf_write E selected))\<rparr>
          in if fst (pdf_write E selected) then Inr (v3, output_path) else Inl (LibraryError, v3))"
proof (cases "inicio < 1 \<or> fin > int (length pages) \<or> inicio > fin")
  case True
  then show ?thesis
    by (simp add: extraer_try_def ext guardar_within_limit[OF size] read_pdf_def parse Let_def)
next
  case False
  then have "collect (get_page pages) [inicio - 1 .. fin - 1]
      = Inr (take (nat (fin - 1 - (inicio - 1) + 1)) (drop (nat (inicio - 1)) pages))"
    by (intro collect_get_page) auto
  then have c: "collect (get_page pages) [inicio - 1 .. fin - 1]
      = Inr (take (nat (fin - inicio + 1)) (drop (nat (inicio - 1)) pages))"
    by (simp add: algebra_simps)
  show ?thesis
    using False
    by (simp add: extraer_try_def ext guardar_within_limit[OF size] read_pdf_def parse Let_def c
        write_pdf_def split: prod.splits)
qed


text \<open>
  Claim C7. For an upload that passes the extension check, fits the size limit and
  parses to \<open>pages\<close>, \<open>api_extraer\<close> raises the 400 range exception exactly when
  \<open>inicio < 1\<close>, \<open>fin > total_pages\<close> or \<open>inicio > fin\<close>. Otherwise the pages selected
  are pages \<open>inicio\<close> to \<open>fin\<close> (1-indexed, \<open>fin - inicio + 1\<close> of them), and when the
  writer returns normally the response serves an output file that holds exactly what
  the writer emits for them.
\<close>

theorem extraer_range:
  assumes "validar_extension (filename f) {''.pdf''} = Inr e"
    and "int (length (file_stream f)) \<le> MAX_MB_PER_FILE * 1024 * 1024"
    and "PdfReader E (file_stream f) = Some pages"
  shows "(inicio < 1 \<or> fin > int (length pages) \<or> inicio > fin \<longrightarrow>
            (\<exists>v. extraer_try E f inicio fin (vars_init st)
                   = Inl (HTTPException 400 (Rango_invalido (int (length pages))), v))
            \<and> response (api_extraer E f inicio fin st)
                = JSONResponse 500 (Message_str (HTTPException 400 (Rango_invalido (int (length pages))))))
       \<and> (\<not> (inicio < 1 \<or> fin > int (length pages) \<or> inicio > fin) \<longrightarrow>
            (let selected = take (nat (fin - inicio + 1)) (drop (nat (inicio - 1)) pages)
             in length selected = nat (fin - inicio + 1)
                \<and> (\<forall>k < length selected. selected ! k = pages ! (nat (inicio - 1) + k))
                \<and> (\<forall>x v. extraer_try E f inicio fin (vars_init st) \<noteq> Inl (HTTPException 400 x, v))
                \<and> (fst (pdf_write E selected) \<longrightarrow>
                     (\<exists>v out. extraer_try E f inicio fin (vars_init st) = Inr (v, out)
                        \<and> fs v out = Some (snd (pdf_write E selected))
                        \<and> response (api_extraer E f inicio fin st)
                            = FileResponse out ''PDFlex_Extraido.pdf'' []
                        \<and> fs_after (api_extraer E f inicio fin st) out
                            = Some (snd (pdf_write E selected))))))"
proof (intro conjI impI)
  assume bad: "inicio < 1 \<or> fin > int (length pages) \<or> inicio > fin"
  have t: "extraer_try E f inicio fin (vars_init st) =
      Inl (HTTPException 400 (Rango_invalido (int (length pages))),
           (vars_init st)\<lparr>uuids := uuids (vars_init st) + 1,
              fs := (fs (vars_init st))(path_join UPLOAD_DIR (uuid_hex E (uuids (vars_init st)) @ ''.pdf'')
                      \<mapsto> file_stream f),
              temp_paths := temp_paths (vars_init st)
                 @ [path_join UPLOAD_DIR (uuid_hex E (uuids (vars_init st)) @ ''.pdf'')]\<rparr>)"
    using bad by (simp add: extraer_try_ingested[OF assms] Let_def)
  show "\<exists>v. extraer_try E f inicio fin (vars_init st)
                   = Inl (HTTPException 400 (Rango_invalido (int (length pages))), v)"
    using t by blast
  show "response (api_extraer E f inicio fin st)
         = JSONResponse 500 (Message_str (HTTPException 400 (Rango_invalido (int (length pages)))))"
    by (simp add: api_extraer_def t)
next
  assume ok: "\<not> (inicio < 1 \<or> fin > int (length pages) \<or> inicio > fin)"
  define selected where "selected = take (nat (fin - inicio + 1)) (drop (nat (inicio - 1)) pages)"
  have len: "length selected = nat (fin - inicio + 1)"
    using ok unfolding selected_def by (simp add: min_def) linarith
  have nth: "\<forall>k < length selected. selected ! k = pages ! (nat (inicio - 1) + k)"
  proof -
    have "nat (inicio - 1) \<le> length pages" using ok by linarith
    then show ?thesis unfolding selected_def by (simp add: nth_drop)
  qed
  have no400: "\<forall>x v. extraer_try E f inicio fin (vars_init st) \<noteq> Inl (HTTPException 400 x, v)"
    using ok by (simp add: extraer_try_ingested[OF assms] Let_def)
  have good: "\<exists>v out. extraer_try E f inicio fin (vars_init st) = Inr (v, out)
                        \<and> fs v out = Some (snd (pdf_write E selected))
                        \<and> response (api_extraer E f inicio fin st)
                            = FileResponse out ''PDFlex_Extraido.pdf'' []
                        \<and> fs_after (api_extraer E f inicio fin st) out
                            = Some (snd (pdf_write E selected))"
    if w: "fst (pdf_write E selected)"
    using ok w unfolding selected_def
    by (simp add: api_extraer_def extraer_try_ingested[OF assms] Let_def)
  show "let selected = take (nat (fin - inicio + 1)) (drop (nat (inicio - 1)) pages)
        in length selected = nat (fin - inicio + 1)
           \<and> (\<forall>k < length selected. selected ! k = pages ! (nat (inicio - 1) + k))
           \<and> (\<forall>x v. extraer_try E f inicio fin (vars_init st) \<noteq> Inl (HTTPException 400 x, v))
           \<and> (fst (pdf_write E selected) \<longrightarrow>
                (\<exists>v out. extraer_try E f inicio fin (vars_init st) = Inr (v, out)
                   \<and> fs v out = Some (snd (pdf_write E selected))
                   \<and> response (api_extraer E f inicio fin st)
                       = FileResponse out ''PDFlex_Extraido.pdf'' []
                   \<and> fs_after (api_extraer E f inicio fin st) out
                       = Some (snd (pdf_write E selected))))"
    unfolding Let_def selected_def[symmetric]
    using len nth no400 good by blast
qed

theorem extraer_range_witness:
  "validar_extension (filename \<lparr>filename = ''doc.pdf'', file_stream = [1, 2, 3, 4, 5]\<rparr>) {''.pdf''}
     = Inr ''.pdf''
   \<and> int (length (file_stream \<lparr>filename = ''doc.pdf'', file_stream = [1, 2, 3, 4, 5]\<rparr>))
       \<le> MAX_MB_PER_FILE * 1024 * 1024
   \<and> PdfReader test_env (file_stream \<lparr>filename = ''doc.pdf'', file_stream = [1, 2, 3, 4, 5]\<rparr>)
       = Some [1, 2, 3, 4, 5]
   \<and> response (api_extraer test_env \<lparr>filename = ''doc.pdf'', file_stream = [1, 2, 3, 4, 5]\<rparr> 3 2 empty_state)
       = JSONResponse 500 (Message_str (HTTPException 400 (Rango_invalido 5)))
   \<and> response (api_extraer test_env \<lparr>filename = ''doc.pdf'', file_stream = [1, 2, 3, 4, 5]\<rparr> 6 6 empty_state)
       = JSONResponse 500 (Message_str (HTTPException 400 (Rango_invalido 5)))
   \<and> (\<exists>out. response (api_extraer test_env \<lparr>filename = ''doc.pdf'', file_stream = [1, 2, 3, 4, 5]\<rparr> 1 5 empty_state)
         = FileResponse out ''PDFlex_Extraido.pdf'' []
       \<and> fs_after (api_extraer test_env \<lparr>filename = ''doc.pdf'', file_stream = [1, 2, 3, 4, 5]\<rparr> 1 5 empty_state) out
         = Some [1, 2, 3, 4, 5])"
proof -
  let ?f = "\<lparr>filename = ''doc.pdf'', file_stream = [1, 2, 3, 4, 5 :: 8 word]\<rparr>"
  have h1: "validar_extension (filename ?f) {''.pdf''} = Inr ''.pdf''"
    by (simp add: eval_defs)
  have h2: "int (length (file_stream ?f)) \<le> MAX_MB_PER_FILE * 1024 * 1024"
    by (simp add: MAX_MB_PER_FILE_def)
  have h3: "PdfReader test_env (file_stream ?f) = Some [1, 2, 3, 4, 5]"
    by (simp add: test_env_def)
  have w: "pdf_write test_env pages = (True, map of_nat pages)" for pages
    by (simp add: test_env_def)
  show ?thesis
    using h1 h2 h3
      extraer_range [OF h1 h2 h3, of 3 2 empty_state]
      extraer_range [OF h1 h2 h3, of 6 6 empty_state]
      extraer_range [OF h1 h2 h3, of 1 5 empty_state]
    by (simp add: w Let_def) blast
qed

subsection \<open>Status codes of failures\<close>

text \<open>
  Claim C3 (what the code does). An \<^verbatim>\<open>HTTPException\<close> raised inside a handler's
  \<^verbatim>\<open>try\<close> block is caught by the handler's own \<^verbatim>\<open>except Exception\<close>: a rejected
  extension, an upload over the size limit and a rejected rotation angle are all answered
  with status 500, the exception (with its intended 400 or 413) only appearing in the
  message.
\<close>

theorem http_exception_answered_500:
  "response (api_unir E [\<lparr>filename = ''a.exe'', file_stream = s\<rparr>] st)
     = JSONResponse 500 (Message_str (HTTPException 400 (Extension_no_permitida ''.exe'')))
   \<and> response (api_unir E [\<lparr>filename = ''a.pdf'', file_stream = replicate 31457281 0\<rparr>] st)
     = JSONResponse 500 (Message_str (HTTPException 413 (Excede_limite 30)))
   \<and> response (api_rotar E \<lparr>filename = ''a.pdf'', file_stream = s\<rparr> 45 st)
     = JSONResponse 500 (Message_str (HTTPException 400 Solo_grados))"
proof (intro conjI)
  have bad: "validar_extension ''a.exe'' {''.pdf''}
      = Inl (HTTPException 400 (Extension_no_permitida ''.exe''))"
    by (simp add: eval_defs)
  have good: "validar_extension ''a.pdf'' {''.pdf''} = Inr ''.pdf''"
    by (simp add: eval_defs)
  show "response (api_unir E [\<lparr>filename = ''a.exe'', file_stream = s\<rparr>] st)
     = JSONResponse 500 (Message_str (HTTPException 400 (Extension_no_permitida ''.exe'')))"
    by (simp add: api_unir_def unir_try_def unir_step_def bad)
  show "response (api_unir E [\<lparr>filename = ''a.pdf'', file_stream = replicate 31457281 0\<rparr>] st)
     = JSONResponse 500 (Message_str (HTTPException 413 (Excede_limite 30)))"
    by (simp add: api_unir_def unir_try_def unir_step_def good guardar_con_limite_result
        MAX_MB_PER_FILE_def Let_def)
  show "response (api_rotar E \<lparr>filename = ''a.pdf'', file_stream = s\<rparr> 45 st)
     = JSONResponse 500 (Message_str (HTTPException 400 Solo_grados))"
    by (simp add: api_rotar_def rotar_try_def good)
qed

subsection \<open>Files left behind\<close>

text \<open>
  Claim C2 (what the code does). In \<^verbatim>\<open>api_comprimir\<close> the output file is opened
  before \<^verbatim>\<open>writer.write\<close> runs and is appended to \<^verbatim>\<open>processed_files\<close> only after
  it. When the writer raises, the request fails with status 500, no background task is
  scheduled, and the output file, created by this request, is still in the filesystem
  after the handler's cleanup.
\<close>

theorem comprimir_failed_write_leaves_output:
  "response (api_comprimir broken_writer_env [\<lparr>filename = ''a.pdf'', file_stream = [1]\<rparr>] empty_state)
     = JSONResponse 500 (Message_str LibraryError)
   \<and> background (api_comprimir broken_writer_env [\<lparr>filename = ''a.pdf'', file_stream = [1]\<rparr>] empty_state)
     = None
   \<and> fs empty_state ''temp_outputs/Mini_aa.pdf'' = None
   \<and> after_cleanup (api_comprimir broken_writer_env [\<lparr>filename = ''a.pdf'', file_stream = [1]\<rparr>] empty_state)
        ''temp_outputs/Mini_aa.pdf'' = Some []
   \<and> after_cleanup (api_comprimir broken_writer_env [\<lparr>filename = ''a.pdf'', file_stream = [1]\<rparr>] empty_state)
        ''temp_uploads/a.pdf'' = None"
  by (simp add: api_comprimir_def comprimir_try_def comprimir_step_def comprimir_init_def
      after_cleanup_def eval_defs)

text \<open>
  Claim C4 (what the code does). At the moment \<^verbatim>\<open>writer.write\<close> raises in
  \<^verbatim>\<open>api_comprimir\<close>, the output file exists and is in neither list of the request:
  the path is recorded after the fallible step, not with the creation of the file.
\<close>

theorem comprimir_output_recorded_after_write:
  "(case comprimir_try broken_writer_env [\<lparr>filename = ''a.pdf'', file_stream = [1]\<rparr>]
           (comprimir_init empty_state) of
      Inl (e, v) \<Rightarrow>
        e = LibraryError
        \<and> fs v ''temp_outputs/Mini_aa.pdf'' = Some []
        \<and> ''temp_outputs/Mini_aa.pdf'' \<notin> set (temp_inputs v @ processed_files v)
        \<and> temp_inputs v = [''temp_uploads/a.pdf'']
        \<and> processed_files v = []
    | Inr r \<Rightarrow> False)"
  by (simp add: comprimir_try_def comprimir_step_def comprimir_init_def eval_defs)

subsection \<open>Validation is interleaved with ingestion\<close>

text \<open>
  Counterexample to claim C5 as stated. With the files \<open>a.pdf\<close> and \<open>b.exe\<close>, in this
  order, the first file is already stored and recorded when the extension of the second
  is rejected: validation does not run over every filename before any file is created.
\<close>

theorem unir_persists_before_later_rejection:
  "(case unir_try test_env
           [\<lparr>filename = ''a.pdf'', file_stream = [1]\<rparr>, \<lparr>filename = ''b.exe'', file_stream = [2]\<rparr>]
           ''temp_outputs/Unido_a.pdf'' (unir_init empty_state) of
      Inl (e, v) \<Rightarrow>
        e = HTTPException 400 (Extension_no_permitida ''.exe'')
        \<and> fs v ''temp_uploads/aa.pdf'' = Some [1]
        \<and> temp_paths v = [''temp_uploads/aa.pdf'']
    | Inr v \<Rightarrow> False)"
  by (simp add: unir_try_def unir_step_def unir_init_def eval_defs)

subsection \<open>Workspace paths and declared filenames\<close>

text \<open>
  Counterexample to claim C6 as stated. In \<^verbatim>\<open>api_img2pdf\<close> two uploads that differ only
  in the declared filename (\<open>x.jpg\<close>, \<open>x.png\<close>), with the same identifier drawn, are
  stored under paths that differ in more than the identifier: the extension of the path
  comes from the declared filename.
\<close>

theorem img2pdf_path_depends_on_filename:
  "(case (img2pdf_step test_env \<lparr>filename = ''x.jpg'', file_stream = [1]\<rparr> (img2pdf_init empty_state),
          img2pdf_step test_env \<lparr>filename = ''x.png'', file_stream = [1]\<rparr> (img2pdf_init empty_state)) of
      (Inr v, Inr w) \<Rightarrow>
        img_paths v = [''temp_uploads/aa.jpg''] \<and> img_paths w = [''temp_uploads/aa.png'']
        \<and> img_paths v \<noteq> img_paths w
    | _ \<Rightarrow> False)"
  by (simp add: img2pdf_step_def img2pdf_init_def eval_defs)

subsection \<open>Cleanup after a failed request\<close>

lemma borrar_archivos_eq:
  "borrar_archivos ps f = (\<lambda>p. if p \<in> set ps then None else f p)"
proof (induction ps arbitrary: f)
  case Nil
  then show ?case by simp
next
  case (Cons q qs)
  show ?case
    by (simp add: Cons.IH fun_eq_iff domIff)
qed

lemma dom_borrar_archivos: "dom (borrar_archivos ps f) = dom f - set ps"
  by (auto simp: borrar_archivos_eq split: if_splits)

lemma for_each_invariant:
  assumes step: "\<And>x v e v'. body x v = Inl (e, v') \<Longrightarrow> R v v'"
    and step': "\<And>x v v'. body x v = Inr v' \<Longrightarrow> R v v'"
    and refl: "\<And>v. R v v"
    and trans: "\<And>a b c. R a b \<Longrightarrow> R b c \<Longrightarrow> R a c"
  shows "(for_each body xs v = Inl (e, v') \<longrightarrow> R v v') \<and> (for_each body xs v = Inr v' \<longrightarrow> R v v')"
proof (induction xs arbitrary: v)
  case Nil
  then show ?case using refl by simp
next
  case (Cons x xs)
  show ?case
  proof (cases "body x v")
    case (Inl r)
    then show ?thesis using step[of x v "fst r" "snd r"] by (cases r) auto
  next
    case (Inr w)
    then have "R v w" using step' by blast
    with Cons.IH[of w] Inr show ?thesis using trans by auto
  qed
qed

lemma for_each_success_invariant:
  assumes step': "\<And>x v v'. body x v = Inr v' \<Longrightarrow> R v v'"
    and refl: "\<And>v. R v v"
    and trans: "\<And>a b c. R a b \<Longrightarrow> R b c \<Longrightarrow> R a c"
  shows "for_each body xs v = Inr v' \<Longrightarrow> R v v'"
proof (induction xs arbitrary: v)
  case Nil
  then show ?case using refl by simp
next
  case (Cons x xs)
  then obtain w where w: "body x v = Inr w" "for_each body xs w = Inr v'"
    by (auto split: sum.splits)
  from step'[OF w(1)] Cons.IH[OF w(2)] show ?case using trans by blast
qed

lemma unir_step_cases:
  "unir_step E f v =
     (case validar_extension (filename f) {''.pdf''} of
        Inl e \<Rightarrow> Inl (e, v)
      | Inr _ \<Rightarrow>
          let p = path_join UPLOAD_DIR (uuid_hex E (uuids v) @ ''.pdf'')
          in if file_stream f \<noteq> [] \<and> int (length (file_stream f)) > MAX_MB_PER_FILE * 1024 * 1024
             then Inl (HTTPException 413 (Excede_limite MAX_MB_PER_FILE),
                       v\<lparr>uuids := uuids v + 1, fs := (fs v)(p := None)\<rparr>)
             else (case PdfReader E (file_stream f) of
                     None \<Rightarrow> Inl (LibraryError,
                               v\<lparr>uuids := uuids v + 1, fs := (fs v)(p \<mapsto> file_stream f),
                                  temp_paths := temp_paths v @ [p]\<rparr>)
                   | Some pages \<Rightarrow> Inr (v\<lparr>uuids := uuids v + 1, fs := (fs v)(p \<mapsto> file_stream f),
                                           temp_paths := temp_paths v @ [p],
                                           merger := merger v @ pages\<rparr>)))"
  by (simp add: unir_step_def guardar_con_limite_result read_pdf_def Let_def
      split: sum.splits option.splits)

lemma recorded_refl: "recorded f ps f ps"
  by (simp add: recorded_def)

lemma recorded_trans:
  "recorded f ps f' ps' \<Longrightarrow> recorded f' ps' f'' ps'' \<Longrightarrow> recorded f ps f'' ps''"
  unfolding recorded_def by blast

lemma unir_step_recorded:
  assumes "unir_step E f v = Inl (e, v') \<or> unir_step E f v = Inr v'"
  shows "recorded (fs v) (temp_paths v) (fs v') (temp_paths v')"
proof (cases "validar_extension (filename f) {''.pdf''}")
  case (Inl x)
  with assms have "v' = v" by (simp add: unir_step_cases)
  then show ?thesis by (simp add: recorded_refl)
next
  case (Inr ext)
  show ?thesis
  proof (cases "file_stream f \<noteq> [] \<and> int (length (file_stream f)) > MAX_MB_PER_FILE * 1024 * 1024")
    case True
    with Inr assms show ?thesis
      by (auto simp: unir_step_cases Let_def recorded_def split: if_splits)
  next
    case False
    with Inr assms show ?thesis
      by (cases "PdfReader E (file_stream f)")
         (auto simp: unir_step_cases Let_def recorded_def split: if_splits)
  qed
qed

lemma unir_loop_recorded:
  assumes "for_each (unir_step E) files v = Inl (e, v') \<or> for_each (unir_step E) files v = Inr v'"
  shows "recorded (fs v) (temp_paths v) (fs v') (temp_paths v')"
proof -
  let ?R = "\<lambda>a b. recorded (fs a) (temp_paths a) (fs b) (temp_paths b)"
  have "(for_each (unir_step E) files v = Inl (e, v') \<longrightarrow> ?R v v')
      \<and> (for_each (unir_step E) files v = Inr v' \<longrightarrow> ?R v v')"
  proof (rule for_each_invariant)
    show "\<And>x v e v'. unir_step E x v = Inl (e, v') \<Longrightarrow> ?R v v'"
      using unir_step_recorded by blast
    show "\<And>x v v'. unir_step E x v = Inr v' \<Longrightarrow> ?R v v'"
      using unir_step_recorded by blast
    show "\<And>v. ?R v v" by (rule recorded_refl)
    show "\<And>a b c. ?R a b \<Longrightarrow> ?R b c \<Longrightarrow> ?R a c" by (rule recorded_trans)
  qed
  with assms show ?thesis by blast
qed

lemma img2pdf_step_cases:
  "img2pdf_step E f v =
     (case validar_extension (filename f) {''.jpg'', ''.jpeg'', ''.png''} of
        Inl e \<Rightarrow> Inl (e, v)
      | Inr ext \<Rightarrow>
          let p = path_join UPLOAD_DIR (uuid_hex E (uuids v) @ ext)
          in if file_stream f \<noteq> [] \<and> int (length (file_stream f)) > MAX_MB_PER_FILE * 1024 * 1024
             then Inl (HTTPException 413 (Excede_limite MAX_MB_PER_FILE),
                       v\<lparr>uuids := uuids v + 1, fs := (fs v)(p := None)\<rparr>)
             else Inr (v\<lparr>uuids := uuids v + 1, fs := (fs v)(p \<mapsto> file_stream f),
                         img_paths := img_paths v @ [p]\<rparr>))"
  by (simp add: img2pdf_step_def guardar_con_limite_result Let_def split: sum.splits)

lemma img2pdf_step_recorded:
  assumes "img2pdf_step E f v = Inl (e, v') \<or> img2pdf_step E f v = Inr v'"
  shows "recorded (fs v) (img_paths v) (fs v') (img_paths v')"
proof (cases "validar_extension (filename f) {''.jpg'', ''.jpeg'', ''.png''}")
  case (Inl x)
  with assms have "v' = v" by (simp add: img2pdf_step_cases)
  then show ?thesis by (simp add: recorded_refl)
next
  case (Inr ext)
  with assms show ?thesis
    by (auto simp: img2pdf_step_cases Let_def recorded_def split: if_splits)
qed

lemma img2pdf_loop_recorded:
  assumes "for_each (img2pdf_step E) files v = Inl (e, v') \<or> for_each (img2pdf_step E) files v = Inr v'"
  shows "recorded (fs v) (img_paths v) (fs v') (img_paths v')"
proof -
  let ?R = "\<lambda>a b. recorded (fs a) (img_paths a) (fs b) (img_paths b)"
  have "(for_each (img2pdf_step E) files v = Inl (e, v') \<longrightarrow> ?R v v')
      \<and> (for_each (img2pdf_step E) files v = Inr v' \<longrightarrow> ?R v v')"
  proof (rule for_each_invariant)
    show "\<And>x v e v'. img2pdf_step E x v = Inl (e, v') \<Longrightarrow> ?R v v'"
      using img2pdf_step_recorded by blast
    show "\<And>x v v'. img2pdf_step E x v = Inr v' \<Longrightarrow> ?R v v'"
      using img2pdf_step_recorded by blast
    show "\<And>v. ?R v v" by (rule recorded_refl)
    show "\<And>a b c. ?R a b \<Longrightarrow> ?R b c \<Longrightarrow> ?R a c" by (rule recorded_trans)
  qed
  with assms show ?thesis by blast
qed

lemma comprimir_step_recorded:
  assumes "comprimir_step E f v = Inr v'"
  shows "recorded (fs v) (temp_inputs v @ processed_files v)
           (fs v') (temp_inputs v' @ processed_files v')"
  using assms
  by (auto simp: comprimir_step_def guardar_con_limite_result read_pdf_def write_pdf_def
      getsize_def Let_def recorded_def
      split: sum.splits option.splits if_splits prod.splits)

lemma comprimir_loop_recorded:
  assumes "for_each (comprimir_step E) files v = Inr v'"
  shows "recorded (fs v) (temp_inputs v @ processed_files v)
           (fs v') (temp_inputs v' @ processed_files v')"
proof -
  let ?R = "\<lambda>a b. recorded (fs a) (temp_inputs a @ processed_files a)
                       (fs b) (temp_inputs b @ processed_files b)"
  show ?thesis
  proof (rule for_each_success_invariant[where R = ?R and body = "comprimir_step E", OF _ _ _ assms])
    show "\<And>x v v'. comprimir_step E x v = Inr v' \<Longrightarrow> ?R v v'"
      by (rule comprimir_step_recorded)
    show "\<And>v. ?R v v" by (rule recorded_refl)
    show "\<And>a b c. ?R a b \<Longrightarrow> ?R b c \<Longrightarrow> ?R a c" by (rule recorded_trans)
  qed
qed

lemma unir_failed_loop:
  fixes E :: "'p env"
  assumes "for_each (unir_step E) files (unir_init st) = Inl (x, v')" "files \<noteq> []"
  shows "response (api_unir E files st) = JSONResponse 500 (Message_str x)
       \<and> background (api_unir E files st) = None
       \<and> dom (fs_after (api_unir E files st)) \<subseteq> dom (fs st)"
proof -
  have r: "recorded (fs (unir_init st :: 'p unir_vars)) (temp_paths (unir_init st :: 'p unir_vars))
             (fs v') (temp_paths v')"
    by (rule unir_loop_recorded[where e = x and files = files and E = E]) (simp add: assms(1))
  have d: "dom (fs v') - set (temp_paths v') \<subseteq> dom (fs st)"
    using r by (auto simp: recorded_def unir_init_def)
  show ?thesis
    using assms d
    by (simp add: api_unir_def unir_try_def Let_def dom_borrar_archivos)
qed

lemma img2pdf_failed_loop:
  assumes "for_each (img2pdf_step E) files (img2pdf_init st) = Inl (x, v')" "files \<noteq> []"
  shows "response (api_img2pdf E files st) = JSONResponse 500 (Message_str x)
       \<and> background (api_img2pdf E files st) = None
       \<and> dom (fs_after (api_img2pdf E files st)) \<subseteq> dom (fs st)"
proof -
  have r: "recorded (fs (img2pdf_init st)) (img_paths (img2pdf_init st)) (fs v') (img_paths v')"
    by (rule img2pdf_loop_recorded[where e = x and files = files and E = E]) (simp add: assms(1))
  have d: "dom (fs v') - set (img_paths v') \<subseteq> dom (fs st)"
    using r by (auto simp: recorded_def img2pdf_init_def)
  show ?thesis
    using assms d
    by (simp add: api_img2pdf_def img2pdf_try_def Let_def dom_borrar_archivos)
qed

lemma comprimir_rejected_after:
  assumes pre: "for_each (comprimir_step E) pre (comprimir_init st) = Inr v'"
    and rej: "for_each (comprimir_step E) (pre @ f # post) (comprimir_init st) = Inl (e, v')"
  shows "response (api_comprimir E (pre @ f # post) st) = JSONResponse 500 (Message_str e)
       \<and> background (api_comprimir E (pre @ f # post) st) = None
       \<and> dom (fs_after (api_comprimir E (pre @ f # post) st)) \<subseteq> dom (fs st)"
proof -
  have r: "recorded (fs (comprimir_init st))
             (temp_inputs (comprimir_init st) @ processed_files (comprimir_init st))
             (fs v') (temp_inputs v' @ processed_files v')"
    by (rule comprimir_loop_recorded[OF pre])
  have d: "dom (fs v') - set (temp_inputs v' @ processed_files v') \<subseteq> dom (fs st)"
    using r by (auto simp: recorded_def comprimir_init_def)
  show ?thesis
    using rej d
    by (simp add: api_comprimir_def comprimir_try_def dom_borrar_archivos)
qed

text \<open>
  Claim C5, amended. Extension validation is interleaved with ingestion: each filename is
  checked immediately before that file is stored. When the file \<open>f\<close> after the files
  \<open>pre\<close> is rejected, the loop raises for \<open>f\<close> in the state reached after \<open>pre\<close> (the
  files before it are stored and recorded, nothing of \<open>f\<close> or of later files is created)
  unless a file of \<open>pre\<close> has already failed. The request is answered with a failure, no
  background task is scheduled, and for merge and image conversion the handler's cleanup
  leaves no file that was not there before the request; for compress this holds when the
  files of \<open>pre\<close> were processed without error.
\<close>

theorem extension_checked_file_by_file:
  fixes E :: "'p env"
  shows
  "(validar_extension (filename f) {''.pdf''} = Inl e \<longrightarrow>
      for_each (unir_step E) (pre @ f # post) uv =
        (case for_each (unir_step E) pre uv of Inl r \<Rightarrow> Inl r | Inr v' \<Rightarrow> Inl (e, v'))
      \<and> for_each (comprimir_step E) (pre @ f # post) cv =
        (case for_each (comprimir_step E) pre cv of Inl r \<Rightarrow> Inl r | Inr v' \<Rightarrow> Inl (e, v'))
      \<and> (\<exists>x. response (api_unir E (pre @ f # post) st) = JSONResponse 500 (Message_str x))
      \<and> background (api_unir E (pre @ f # post) st) = None
      \<and> dom (fs_after (api_unir E (pre @ f # post) st)) \<subseteq> dom (fs st)
      \<and> (\<forall>cv'. for_each (comprimir_step E) pre (comprimir_init st) = Inr cv' \<longrightarrow>
            response (api_comprimir E (pre @ f # post) st) = JSONResponse 500 (Message_str e)
            \<and> background (api_comprimir E (pre @ f # post) st) = None
            \<and> dom (fs_after (api_comprimir E (pre @ f # post) st)) \<subseteq> dom (fs st)))
   \<and> (validar_extension (filename f) {''.jpg'', ''.jpeg'', ''.png''} = Inl e' \<longrightarrow>
      for_each (img2pdf_step E) (pre @ f # post) iv =
        (case for_each (img2pdf_step E) pre iv of Inl r \<Rightarrow> Inl r | Inr v' \<Rightarrow> Inl (e', v'))
      \<and> (\<exists>x. response (api_img2pdf E (pre @ f # post) st) = JSONResponse 500 (Message_str x))
      \<and> background (api_img2pdf E (pre @ f # post) st) = None
      \<and> dom (fs_after (api_img2pdf E (pre @ f # post) st)) \<subseteq> dom (fs st))"
proof (intro conjI impI)
  assume rej: "validar_extension (filename f) {''.pdf''} = Inl e"
  have u: "unir_step E f v = Inl (e, v)" for v :: "'p unir_vars"
    by (simp add: unir_step_def rej)
  have c: "comprimir_step E f v = Inl (e, v)" for v
    by (simp add: comprimir_step_def rej)
  show ul: "for_each (unir_step E) (pre @ f # post) uv =
        (case for_each (unir_step E) pre uv of Inl r \<Rightarrow> Inl r | Inr v' \<Rightarrow> Inl (e, v'))" for uv
    by (rule for_each_raise_at[of "unir_step E" f e]) (rule u)
  show cl: "for_each (comprimir_step E) (pre @ f # post) cv =
        (case for_each (comprimir_step E) pre cv of Inl r \<Rightarrow> Inl r | Inr v' \<Rightarrow> Inl (e, v'))" for cv
    by (rule for_each_raise_at[of "comprimir_step E" f e]) (rule c)
  obtain x v' where l: "for_each (unir_step E) (pre @ f # post) (unir_init st) = Inl (x, v')"
    by (cases "for_each (unir_step E) pre (unir_init st :: 'p unir_vars)")
       (auto simp: ul[of "unir_init st"])
  from unir_failed_loop[OF l]
  show "\<exists>x. response (api_unir E (pre @ f # post) st) = JSONResponse 500 (Message_str x)"
    and "background (api_unir E (pre @ f # post) st) = None"
    and "dom (fs_after (api_unir E (pre @ f # post) st)) \<subseteq> dom (fs st)"
    by auto
  show "\<forall>cv'. for_each (comprimir_step E) pre (comprimir_init st) = Inr cv' \<longrightarrow>
            response (api_comprimir E (pre @ f # post) st) = JSONResponse 500 (Message_str e)
            \<and> background (api_comprimir E (pre @ f # post) st) = None
            \<and> dom (fs_after (api_comprimir E (pre @ f # post) st)) \<subseteq> dom (fs st)"
  proof (intro allI impI)
    fix cv'
    assume ok: "for_each (comprimir_step E) pre (comprimir_init st) = Inr cv'"
    have "for_each (comprimir_step E) (pre @ f # post) (comprimir_init st) = Inl (e, cv')"
      by (simp add: cl[of "comprimir_init st"] ok)
    from comprimir_rejected_after[OF ok this]
    show "response (api_comprimir E (pre @ f # post) st) = JSONResponse 500 (Message_str e)
            \<and> background (api_comprimir E (pre @ f # post) st) = None
            \<and> dom (fs_after (api_comprimir E (pre @ f # post) st)) \<subseteq> dom (fs st)" .
  qed
next
  assume rej: "validar_extension (filename f) {''.jpg'', ''.jpeg'', ''.png''} = Inl e'"
  have i: "img2pdf_step E f v = Inl (e', v)" for v
    by (simp add: img2pdf_step_def rej)
  show il: "for_each (img2pdf_step E) (pre @ f # post) iv =
        (case for_each (img2pdf_step E) pre iv of Inl r \<Rightarrow> Inl r | Inr v' \<Rightarrow> Inl (e', v'))" for iv
    by (rule for_each_raise_at[of "img2pdf_step E" f e']) (rule i)
  obtain x v' where l: "for_each (img2pdf_step E) (pre @ f # post) (img2pdf_init st) = Inl (x, v')"
    by (cases "for_each (img2pdf_step E) pre (img2pdf_init st)")
       (auto simp: il[of "img2pdf_init st"])
  from img2pdf_failed_loop[OF l]
  show "\<exists>x. response (api_img2pdf E (pre @ f # post) st) = JSONResponse 500 (Message_str x)"
    and "background (api_img2pdf E (pre @ f # post) st) = None"
    and "dom (fs_after (api_img2pdf E (pre @ f # post) st)) \<subseteq> dom (fs st)"
    by auto
qed

theorem extension_checked_file_by_file_witness:
  "validar_extension (filename \<lparr>filename = ''b.exe'', file_stream = [2]\<rparr>) {''.pdf''}
     = Inl (HTTPException 400 (Extension_no_permitida ''.exe''))
   \<and> validar_extension (filename \<lparr>filename = ''b.exe'', file_stream = [2]\<rparr>) {''.jpg'', ''.jpeg'', ''.png''}
     = Inl (HTTPException 400 (Extension_no_permitida ''.exe''))
   \<and> (\<exists>cv'. for_each (comprimir_step test_env) [\<lparr>filename = ''a.pdf'', file_stream = [1]\<rparr>]
               (comprimir_init empty_state) = Inr cv')
   \<and> response (api_comprimir test_env
         [\<lparr>filename = ''a.pdf'', file_stream = [1]\<rparr>, \<lparr>filename = ''b.exe'', file_stream = [2]\<rparr>,
          \<lparr>filename = ''c.pdf'', file_stream = [3]\<rparr>] empty_state)
       = JSONResponse 500 (Message_str (HTTPException 400 (Extension_no_permitida ''.exe'')))
   \<and> dom (fs_after (api_comprimir test_env
         [\<lparr>filename = ''a.pdf'', file_stream = [1]\<rparr>, \<lparr>filename = ''b.exe'', file_stream = [2]\<rparr>,
          \<lparr>filename = ''c.pdf'', file_stream = [3]\<rparr>] empty_state)) \<subseteq> dom (fs empty_state)
   \<and> dom (fs_after (api_unir test_env
         [\<lparr>filename = ''a.pdf'', file_stream = [1]\<rparr>, \<lparr>filename = ''b.exe'', file_stream = [2]\<rparr>,
          \<lparr>filename = ''c.pdf'', file_stream = [3]\<rparr>] empty_state)) \<subseteq> dom (fs empty_state)
   \<and> dom (fs_after (api_img2pdf test_env
         [\<lparr>filename = ''a.pdf'', file_stream = [1]\<rparr>, \<lparr>filename = ''b.exe'', file_stream = [2]\<rparr>,
          \<lparr>filename = ''c.pdf'', file_stream = [3]\<rparr>] empty_state)) \<subseteq> dom (fs empty_state)"
proof -
  let ?a = "\<lparr>filename = ''a.pdf'', file_stream = [1 :: 8 word]\<rparr>"
  let ?b = "\<lparr>filename = ''b.exe'', file_stream = [2 :: 8 word]\<rparr>"
  let ?c = "\<lparr>filename = ''c.pdf'', file_stream = [3 :: 8 word]\<rparr>"
  have h1: "validar_extension (filename ?b) {''.pdf''}
      = Inl (HTTPException 400 (Extension_no_permitida ''.exe''))"
    by (simp add: eval_defs)
  have h2: "validar_extension (filename ?b) {''.jpg'', ''.jpeg'', ''.png''}
      = Inl (HTTPException 400 (Extension_no_permitida ''.exe''))"
    by (simp add: eval_defs)
  have h3: "\<exists>cv'. for_each (comprimir_step test_env) [?a] (comprimir_init empty_state) = Inr cv'"
    by (simp add: comprimir_step_def comprimir_init_def eval_defs)
  have app: "[?a] @ ?b # [?c] = [?a, ?b, ?c]" by simp
  show ?thesis
    using h1 h2 h3
      extension_checked_file_by_file
        [where E = test_env and f = ?b and pre = "[?a]" and post = "[?c]" and st = empty_state
           and e = "HTTPException 400 (Extension_no_permitida ''.exe'')"
           and e' = "HTTPException 400 (Extension_no_permitida ''.exe'')"]
    unfolding app by blast
qed

subsection \<open>What a handler takes from the declared filename\<close>

lemma guardar_con_limite_stream:
  "file_stream f = file_stream g \<Longrightarrow>
   guardar_con_limite f d m x = guardar_con_limite g d m x"
  by (simp add: guardar_con_limite_result)

lemma for_each_cong_list:
  "list_all2 (\<lambda>x y. \<forall>v. body x v = body y v) xs ys \<Longrightarrow> for_each body xs v = for_each body ys v"
proof (induction xs ys arbitrary: v rule: list_all2_induct)
  case Nil
  then show ?case by simp
next
  case (Cons x xs y ys)
  then show ?case by (simp split: sum.splits)
qed

lemma validar_pdf_accepts: "validar_extension n {''.pdf''} = Inr e \<Longrightarrow> e = ''.pdf''"
  by (auto simp: validar_extension_eq split: if_splits)

lemma validar_same_suffix:
  "lower (snd (splitext n)) = lower (snd (splitext n')) \<Longrightarrow>
   validar_extension n A = validar_extension n' A"
  by (simp add: validar_extension_eq)

lemma unir_step_same:
  assumes "file_stream f = file_stream g"
    and "validar_extension (filename f) {''.pdf''} = validar_extension (filename g) {''.pdf''}"
  shows "unir_step E f v = unir_step E g v"
  unfolding unir_step_cases assms by (rule refl)

lemma comprimir_step_same:
  assumes "file_stream f = file_stream g"
    and "validar_extension (filename f) {''.pdf''} = validar_extension (filename g) {''.pdf''}"
  shows "comprimir_step E f v = comprimir_step E g v"
  unfolding comprimir_step_def guardar_con_limite_stream[OF assms(1)] assms(2) by (rule refl)

lemma img2pdf_step_same:
  assumes "file_stream f = file_stream g"
    and "validar_extension (filename f) {''.jpg'', ''.jpeg'', ''.png''}
       = validar_extension (filename g) {''.jpg'', ''.jpeg'', ''.png''}"
  shows "img2pdf_step E f v = img2pdf_step E g v"
  unfolding img2pdf_step_cases assms by (rule refl)

lemma extraer_try_same:
  assumes "file_stream f = file_stream g"
    and "validar_extension (filename f) {''.pdf''} = validar_extension (filename g) {''.pdf''}"
  shows "extraer_try E f i j v = extraer_try E g i j v"
  unfolding extraer_try_def guardar_con_limite_stream[OF assms(1)] assms(2) by (rule refl)

lemma rotar_try_same:
  assumes "file_stream f = file_stream g"
    and "validar_extension (filename f) {''.pdf''} = validar_extension (filename g) {''.pdf''}"
  shows "rotar_try E f d v = rotar_try E g d v"
  unfolding rotar_try_def guardar_con_limite_stream[OF assms(1)] assms(2) by (rule refl)

lemma unir_step_path:
  "unir_step E f uv = Inr uv' \<Longrightarrow>
   temp_paths uv' = temp_paths uv @ [path_join UPLOAD_DIR (uuid_hex E (uuids uv) @ ''.pdf'')]"
  by (auto simp: unir_step_cases Let_def split: sum.splits if_splits option.splits)

lemma img2pdf_step_path:
  assumes "img2pdf_step E f iv = Inr iv'"
  shows "lower (snd (splitext (filename f))) \<in> {''.jpg'', ''.jpeg'', ''.png''}
       \<and> img_paths iv' = img_paths iv
             @ [path_join UPLOAD_DIR (uuid_hex E (uuids iv) @ lower (snd (splitext (filename f))))]"
proof (cases "lower (snd (splitext (filename f))) \<in> {''.jpg'', ''.jpeg'', ''.png''}")
  case False
  then have "validar_extension (filename f) {''.jpg'', ''.jpeg'', ''.png''}
      = Inl (HTTPException 400 (Extension_no_permitida (lower (snd (splitext (filename f))))))"
    by (simp only: validar_extension_eq if_False)
  with assms show ?thesis by (simp add: img2pdf_step_cases)
next
  case True
  then have "validar_extension (filename f) {''.jpg'', ''.jpeg'', ''.png''}
      = Inr (lower (snd (splitext (filename f))))"
    by (simp only: validar_extension_eq if_True)
  with assms True show ?thesis
    by (auto simp: img2pdf_step_cases Let_def split: if_splits)
qed

lemma comprimir_step_path:
  assumes "comprimir_step E f cv = Inr cv'"
  shows "temp_inputs cv' = temp_inputs cv @ [path_join UPLOAD_DIR (uuid_hex E (uuids cv) @ ''.pdf'')]
       \<and> processed_files cv' = processed_files cv
             @ [path_join OUTPUT_DIR (''Mini_'' @ uuid_hex E (uuids cv + 1) @ ''.pdf'')]"
  using assms
  by (auto simp: comprimir_step_def guardar_con_limite_result read_pdf_def write_pdf_def
      getsize_def Let_def split: sum.splits option.splits if_splits prod.splits)

lemma for_each_same:
  assumes "list_all2 (\<lambda>x y. \<forall>v. body x v = body y v) xs ys"
  shows "for_each body xs = for_each body ys"
  using for_each_cong_list[OF assms] by (simp add: fun_eq_iff)

lemma list_all2_Nil_iff: "list_all2 P xs ys \<Longrightarrow> (xs = []) = (ys = [])"
  by (cases xs; cases ys) auto

lemma accepted_pdf_steps:
  assumes "file_stream x = file_stream y
      \<and> validar_extension (filename x) {''.pdf''} = Inr ''.pdf''
      \<and> validar_extension (filename y) {''.pdf''} = Inr ''.pdf''"
  shows "\<forall>v. unir_step E x v = unir_step E y v"
    and "\<forall>v. comprimir_step E x v = comprimir_step E y v"
proof -
  have s: "file_stream x = file_stream y"
    and v: "validar_extension (filename x) {''.pdf''} = validar_extension (filename y) {''.pdf''}"
    using assms by simp_all
  show "\<forall>v. unir_step E x v = unir_step E y v"
    by (intro allI unir_step_same s v)
  show "\<forall>v. comprimir_step E x v = comprimir_step E y v"
    by (intro allI comprimir_step_same s v)
qed

lemma same_suffix_steps:
  assumes "file_stream x = file_stream y
      \<and> lower (snd (splitext (filename x))) = lower (snd (splitext (filename y)))"
  shows "\<forall>v. img2pdf_step E x v = img2pdf_step E y v"
proof -
  have s: "file_stream x = file_stream y" using assms by simp
  have v: "validar_extension (filename x) {''.jpg'', ''.jpeg'', ''.png''}
      = validar_extension (filename y) {''.jpg'', ''.jpeg'', ''.png''}"
    using assms by (intro validar_same_suffix) simp
  show ?thesis by (intro allI img2pdf_step_same s v)
qed

text \<open>
  Claim C6, amended. The path of a stored upload is \<open>UPLOAD_DIR\<close> joined with a fresh
  identifier and an extension. For merge, compress, extract and rotate the extension is
  the constant \<open>.pdf\<close>, and two requests that differ only in declared filenames accepted
  by the policy have the same outcome (same paths, same files, same response). For image
  to document the extension is the validated lowercase suffix of the declared filename
  (\<open>.jpg\<close>, \<open>.jpeg\<close> or \<open>.png\<close>), the only part of the filename that reaches the path:
  two requests whose filenames have the same lowercase suffix have the same outcome.
\<close>

theorem workspace_path_from_identifier:
  fixes E :: "'p env"
  shows
  "(list_all2 (\<lambda>f g. file_stream f = file_stream g
                 \<and> validar_extension (filename f) {''.pdf''} = Inr ''.pdf''
                 \<and> validar_extension (filename g) {''.pdf''} = Inr ''.pdf'') files files' \<longrightarrow>
      api_unir E files st = api_unir E files' st
      \<and> api_comprimir E files st = api_comprimir E files' st)
   \<and> (file_stream f = file_stream g
        \<and> validar_extension (filename f) {''.pdf''} = Inr ''.pdf''
        \<and> validar_extension (filename g) {''.pdf''} = Inr ''.pdf'' \<longrightarrow>
      api_extraer E f inicio fin st = api_extraer E g inicio fin st
      \<and> api_rotar E f grados st = api_rotar E g grados st)
   \<and> (list_all2 (\<lambda>f g. file_stream f = file_stream g
                 \<and> lower (snd (splitext (filename f))) = lower (snd (splitext (filename g))))
          files files' \<longrightarrow>
      api_img2pdf E files st = api_img2pdf E files' st)
   \<and> (unir_step E f uv = Inr uv' \<longrightarrow>
        temp_paths uv' = temp_paths uv @ [path_join UPLOAD_DIR (uuid_hex E (uuids uv) @ ''.pdf'')])
   \<and> (comprimir_step E f cv = Inr cv' \<longrightarrow>
        temp_inputs cv' = temp_inputs cv @ [path_join UPLOAD_DIR (uuid_hex E (uuids cv) @ ''.pdf'')]
        \<and> processed_files cv' = processed_files cv
             @ [path_join OUTPUT_DIR (''Mini_'' @ uuid_hex E (uuids cv + 1) @ ''.pdf'')])
   \<and> (img2pdf_step E f iv = Inr iv' \<longrightarrow>
        lower (snd (splitext (filename f))) \<in> {''.jpg'', ''.jpeg'', ''.png''}
        \<and> img_paths iv' = img_paths iv
             @ [path_join UPLOAD_DIR (uuid_hex E (uuids iv) @ lower (snd (splitext (filename f))))])"
proof (intro conjI impI)
  assume h: "list_all2 (\<lambda>f g. file_stream f = file_stream g
                 \<and> validar_extension (filename f) {''.pdf''} = Inr ''.pdf''
                 \<and> validar_extension (filename g) {''.pdf''} = Inr ''.pdf'') files files'"
  have e: "(files = []) = (files' = [])" by (rule list_all2_Nil_iff[OF h])
  have "list_all2 (\<lambda>x y. \<forall>v. unir_step E x v = unir_step E y v) files files'"
    by (rule list_all2_mono[OF h]) (rule accepted_pdf_steps)
  then have u: "for_each (unir_step E) files = for_each (unir_step E) files'"
    by (rule for_each_same)
  have "list_all2 (\<lambda>x y. \<forall>v. comprimir_step E x v = comprimir_step E y v) files files'"
    by (rule list_all2_mono[OF h]) (rule accepted_pdf_steps)
  then have c: "for_each (comprimir_step E) files = for_each (comprimir_step E) files'"
    by (rule for_each_same)
  show "api_unir E files st = api_unir E files' st"
    unfolding api_unir_def unir_try_def u e by (rule refl)
  show "api_comprimir E files st = api_comprimir E files' st"
    unfolding api_comprimir_def comprimir_try_def c e by (rule refl)
next
  assume h: "file_stream f = file_stream g
        \<and> validar_extension (filename f) {''.pdf''} = Inr ''.pdf''
        \<and> validar_extension (filename g) {''.pdf''} = Inr ''.pdf''"
  then have s: "file_stream f = file_stream g"
    and v: "validar_extension (filename f) {''.pdf''} = validar_extension (filename g) {''.pdf''}"
    by simp_all
  show "api_extraer E f inicio fin st = api_extraer E g inicio fin st"
    unfolding api_extraer_def extraer_try_same[OF s v] by (rule refl)
  show "api_rotar E f grados st = api_rotar E g grados st"
    unfolding api_rotar_def rotar_try_same[OF s v] by (rule refl)
next
  assume h: "list_all2 (\<lambda>f g. file_stream f = file_stream g
                 \<and> lower (snd (splitext (filename f))) = lower (snd (splitext (filename g))))
          files files'"
  have e: "(files = []) = (files' = [])" by (rule list_all2_Nil_iff[OF h])
  have "list_all2 (\<lambda>x y. \<forall>v. img2pdf_step E x v = img2pdf_step E y v) files files'"
    by (rule list_all2_mono[OF h]) (rule same_suffix_steps)
  then have i: "for_each (img2pdf_step E) files = for_each (img2pdf_step E) files'"
    by (rule for_each_same)
  show "api_img2pdf E files st = api_img2pdf E files' st"
    unfolding api_img2pdf_def img2pdf_try_def i e by (rule refl)
next
  assume "unir_step E f uv = Inr uv'"
  then show "temp_paths uv' = temp_paths uv @ [path_join UPLOAD_DIR (uuid_hex E (uuids uv) @ ''.pdf'')]"
    by (rule unir_step_path)
next
  assume h: "comprimir_step E f cv = Inr cv'"
  from comprimir_step_path[OF h]
  show "temp_inputs cv' = temp_inputs cv @ [path_join UPLOAD_DIR (uuid_hex E (uuids cv) @ ''.pdf'')]"
    and "processed_files cv' = processed_files cv
             @ [path_join OUTPUT_DIR (''Mini_'' @ uuid_hex E (uuids cv + 1) @ ''.pdf'')]"
    by simp_all
next
  assume h: "img2pdf_step E f iv = Inr iv'"
  from img2pdf_step_path[OF h]
  show "lower (snd (splitext (filename f))) \<in> {''.jpg'', ''.jpeg'', ''.png''}"
    and "img_paths iv' = img_paths iv
             @ [path_join UPLOAD_DIR (uuid_hex E (uuids iv) @ lower (snd (splitext (filename f))))]"
    by simp_all
qed

theorem workspace_path_from_identifier_witness:
  "list_all2 (\<lambda>f g. file_stream f = file_stream g
                 \<and> validar_extension (filename f) {''.pdf''} = Inr ''.pdf''
                 \<and> validar_extension (filename g) {''.pdf''} = Inr ''.pdf'')
      [\<lparr>filename = ''x.pdf'', file_stream = [1]\<rparr>]
      [\<lparr>filename = ''../../etc/passwd.PDF'', file_stream = [1]\<rparr>]
   \<and> list_all2 (\<lambda>f g. file_stream f = file_stream g
                 \<and> lower (snd (splitext (filename f))) = lower (snd (splitext (filename g))))
      [\<lparr>filename = ''a.JPG'', file_stream = [1]\<rparr>] [\<lparr>filename = ''b.jpg'', file_stream = [1]\<rparr>]
   \<and> api_unir test_env [\<lparr>filename = ''x.pdf'', file_stream = [1]\<rparr>] empty_state
       = api_unir test_env [\<lparr>filename = ''../../etc/passwd.PDF'', file_stream = [1]\<rparr>] empty_state
   \<and> api_comprimir test_env [\<lparr>filename = ''x.pdf'', file_stream = [1]\<rparr>] empty_state
       = api_comprimir test_env [\<lparr>filename = ''../../etc/passwd.PDF'', file_stream = [1]\<rparr>] empty_state
   \<and> api_extraer test_env \<lparr>filename = ''x.pdf'', file_stream = [1]\<rparr> 1 1 empty_state
       = api_extraer test_env \<lparr>filename = ''../../etc/passwd.PDF'', file_stream = [1]\<rparr> 1 1 empty_state
   \<and> api_rotar test_env \<lparr>filename = ''x.pdf'', file_stream = [1]\<rparr> 90 empty_state
       = api_rotar test_env \<lparr>filename = ''../../etc/passwd.PDF'', file_stream = [1]\<rparr> 90 empty_state
   \<and> api_img2pdf test_env [\<lparr>filename = ''a.JPG'', file_stream = [1]\<rparr>] empty_state
       = api_img2pdf test_env [\<lparr>filename = ''b.jpg'', file_stream = [1]\<rparr>] empty_state
   \<and> (\<exists>uv'. unir_step test_env \<lparr>filename = ''x.pdf'', file_stream = [1]\<rparr> (unir_init empty_state) = Inr uv'
          \<and> temp_paths uv' = [''temp_uploads/aa.pdf''])
   \<and> (\<exists>cv'. comprimir_step test_env \<lparr>filename = ''x.pdf'', file_stream = [1]\<rparr> (comprimir_init empty_state) = Inr cv'
          \<and> temp_inputs cv' = [''temp_uploads/a.pdf'']
          \<and> processed_files cv' = [''temp_outputs/Mini_aa.pdf''])
   \<and> (\<exists>iv'. img2pdf_step test_env \<lparr>filename = ''a.JPG'', file_stream = [1]\<rparr> (img2pdf_init empty_state) = Inr iv'
          \<and> img_paths iv' = [''temp_uploads/aa.jpg''])"
proof -
  let ?x = "\<lparr>filename = ''x.pdf'', file_stream = [1 :: 8 word]\<rparr>"
  let ?y = "\<lparr>filename = ''../../etc/passwd.PDF'', file_stream = [1 :: 8 word]\<rparr>"
  let ?a = "\<lparr>filename = ''a.JPG'', file_stream = [1 :: 8 word]\<rparr>"
  let ?b = "\<lparr>filename = ''b.jpg'', file_stream = [1 :: 8 word]\<rparr>"
  have vx: "validar_extension (filename ?x) {''.pdf''} = Inr ''.pdf''"
    by (simp add: eval_defs)
  have vy: "validar_extension (filename ?y) {''.pdf''} = Inr ''.pdf''"
    by (simp add: eval_defs)
  have la: "lower (snd (splitext (filename ?a))) = ''.jpg''"
    by (simp add: eval_defs)
  have lb: "lower (snd (splitext (filename ?b))) = ''.jpg''"
    by (simp add: eval_defs)
  have h1: "list_all2 (\<lambda>f g. file_stream f = file_stream g
                 \<and> validar_extension (filename f) {''.pdf''} = Inr ''.pdf''
                 \<and> validar_extension (filename g) {''.pdf''} = Inr ''.pdf'') [?x] [?y]"
    using vx vy by simp
  have h2: "file_stream ?x = file_stream ?y
        \<and> validar_extension (filename ?x) {''.pdf''} = Inr ''.pdf''
        \<and> validar_extension (filename ?y) {''.pdf''} = Inr ''.pdf''"
    using vx vy by simp
  have h3: "list_all2 (\<lambda>f g. file_stream f = file_stream g
                 \<and> lower (snd (splitext (filename f))) = lower (snd (splitext (filename g))))
      [?a] [?b]"
    using la lb by simp
  obtain uv' :: "nat unir_vars" where
    h4: "unir_step test_env ?x (unir_init empty_state) = Inr uv'"
    by (simp add: unir_step_def unir_init_def eval_defs)
  obtain cv' where
    h5: "comprimir_step test_env ?x (comprimir_init empty_state) = Inr cv'"
    by (simp add: comprimir_step_def comprimir_init_def eval_defs)
  obtain iv' where
    h6: "img2pdf_step test_env ?a (img2pdf_init empty_state) = Inr iv'"
    by (simp add: img2pdf_step_def img2pdf_init_def eval_defs)
  have paths: "path_join UPLOAD_DIR (uuid_hex test_env (uuids (unir_init empty_state :: nat unir_vars)) @ ''.pdf'')
        = ''temp_uploads/aa.pdf''"
      "path_join UPLOAD_DIR (uuid_hex test_env (uuids (comprimir_init empty_state)) @ ''.pdf'')
        = ''temp_uploads/a.pdf''"
      "path_join OUTPUT_DIR (''Mini_'' @ uuid_hex test_env (uuids (comprimir_init empty_state) + 1) @ ''.pdf'')
        = ''temp_outputs/Mini_aa.pdf''"
      "path_join UPLOAD_DIR (uuid_hex test_env (uuids (img2pdf_init empty_state)) @ ''.jpg'')
        = ''temp_uploads/aa.jpg''"
    by (simp_all add: unir_init_def comprimir_init_def img2pdf_init_def eval_defs)
  have inits: "temp_paths (unir_init empty_state :: nat unir_vars) = []"
      "temp_inputs (comprimir_init empty_state) = []"
      "processed_files (comprimir_init empty_state) = []"
      "img_paths (img2pdf_init empty_state) = []"
    by (simp_all add: unir_init_def comprimir_init_def img2pdf_init_def)
  note t1 = workspace_path_from_identifier
      [where E = test_env and files = "[?x]" and files' = "[?y]" and st = empty_state
         and f = ?x and g = ?y and inicio = 1 and fin = 1 and grados = 90
         and uv = "unir_init empty_state" and uv' = uv'
         and cv = "comprimir_init empty_state" and cv' = cv']
  note t2 = workspace_path_from_identifier
      [where E = test_env and files = "[?a]" and files' = "[?b]" and st = empty_state
         and f = ?a and iv = "img2pdf_init empty_state" and iv' = iv']
  from t1 h1 h2 h4 h5 have p1:
    "api_unir test_env [?x] empty_state = api_unir test_env [?y] empty_state"
    "api_comprimir test_env [?x] empty_state = api_comprimir test_env [?y] empty_state"
    "api_extraer test_env ?x 1 1 empty_state = api_extraer test_env ?y 1 1 empty_state"
    "api_rotar test_env ?x 90 empty_state = api_rotar test_env ?y 90 empty_state"
    "temp_paths uv' = [''temp_uploads/aa.pdf'']"
    "temp_inputs cv' = [''temp_uploads/a.pdf'']"
    "processed_files cv' = [''temp_outputs/Mini_aa.pdf'']"
    unfolding paths inits by simp_all
  from t2 h3 h6 have p2:
    "api_img2pdf test_env [?a] empty_state = api_img2pdf test_env [?b] empty_state"
    "img_paths iv' = [''temp_uploads/aa.jpg'']"
    unfolding la paths inits by simp_all
  show ?thesis
    using h1 h3 p1 p2 h4 h5 h6 by blast
qed

end
